theory Spec2Isabelle
  imports
    Main
    "HOL-Library.Word"
    "HOL-Library.Char_ord"
    "HOL-Library.List_Lexorder"
    "HOL-Library.Multiset"
begin

section \<open>Strings\<close>

text \<open>
  Go strings are byte sequences; they are modelled as \<open>string\<close> (a list of 8-bit
  characters). \<open>slices.Sort\<close> on a string slice orders bytewise lexicographically, which is
  the order of \<open>HOL-Library.List_Lexorder\<close> over \<open>HOL-Library.Char_ord\<close>, so
  \<open>slices.Sort\<close> is \<open>sort\<close> and \<open>slices.Equal\<close> is equality of lists.

  \<open>strings.EqualFold\<close> compares under Unicode simple case folding: it decodes both
  strings to code points and holds when the two sequences have the same length and the
  code points are, place by place, in the same folding class. That is the equality of the
  two sequences of class representatives. The folding tables belong to the Go library,
  so the folding is a parameter of the model: \<open>cf s\<close> is the sequence of class
  representatives of \<open>s\<close>, whatever the tables are, and \<open>EqualFold cf\<close> is the comparison.
  Every function that compares this way takes \<open>cf\<close>, and every general statement below
  holds for every \<open>cf\<close>, Go's among them.

  The examples need one folding to run. On strings of ASCII characters Go's comparison
  is the folding of the letters A..Z onto a..z; \<open>ascii_fold\<close> is that folding, and the
  examples compare ASCII strings only.
\<close>

definition to_lower :: "char \<Rightarrow> char" where
  "to_lower c =
     (case map_of (zip ''ABCDEFGHIJKLMNOPQRSTUVWXYZ'' ''abcdefghijklmnopqrstuvwxyz'') c of
        Some l \<Rightarrow> l
      | None \<Rightarrow> c)"

definition EqualFold :: "(string \<Rightarrow> string) \<Rightarrow> string \<Rightarrow> string \<Rightarrow> bool" where
  "EqualFold cf s t = (cf s = cf t)"

definition ascii_fold :: "string \<Rightarrow> string" where
  "ascii_fold s = map to_lower s"

text \<open>\<open>strings.Join(xs, sep)\<close>.\<close>

fun Join :: "string list \<Rightarrow> string \<Rightarrow> string" where
  "Join [] sep = []"
| "Join [x] sep = x"
| "Join (x # y # ys) sep = x @ sep @ Join (y # ys) sep"

text \<open>\<open>fmt.Sprintf("%t", b)\<close>.\<close>

definition fmt_bool :: "bool \<Rightarrow> string" where
  "fmt_bool b = (if b then ''true'' else ''false'')"

section \<open>The manifest (package \<open>gh_pb\<close>)\<close>

text \<open>
  Modelled from the spec: the generated manifest types, missing from the sources. Their
  shape is the spec's data model and the one the code reads: optional scalar fields are
  pointers (\<open>option\<close>), repeated fields are slices (lists), and a branch carries its
  protection block.
\<close>

record people =
  Name :: string
  Username :: string

record protection =
  RequirePr :: "bool option"
  ChecksMustPass :: "bool option"
  RequiredChecks :: "string list"
  SignedCommits :: "bool option"

record branch =
  BranchName :: string
  Protection :: protection

record repository =
  RepoName :: string
  Description :: "string option"
  Archived :: "bool option"
  Private :: "bool option"
  DefaultBranch :: "string option"
  Labels :: "string list"
  ProtectedBranches :: "branch list"

record organization =
  OrgName :: string
  People :: "people list"
  Repositories :: "repository list"

section \<open>Provider objects (package \<open>github\<close>)\<close>

record gh_repository =
  gh_Name :: "string option"
  gh_Description :: "string option"
  gh_Archived :: "bool option"
  gh_Private :: "bool option"
  gh_DefaultBranch :: "string option"
  gh_Topics :: "string list"

record gh_user =
  Login :: "string option"
  ID :: "int option"
  user_PublicRepos :: "64 word option"
  user_TotalPrivateRepos :: "64 word option"

record gh_organization =
  org_PublicRepos :: "64 word option"
  org_TotalPrivateRepos :: "64 word option"

text \<open>
  A branch's protection as the provider reports it. \<open>RequiredSignatures\<close> is the
  \<open>Enabled\<close> flag of the signature block; \<open>None\<close> stands for a missing block or a missing
  flag, which the getters \<open>GetRequiredSignatures().GetEnabled()\<close> both read as \<open>false\<close>.
\<close>

record gh_protection =
  RequiredPullRequestReviews_on :: bool
  RequiredStatusChecks_on :: "string list option"
  RequiredSignatures :: "bool option"

text \<open>\<open>github.ProtectionRequest\<close>, with the two fields the code fills.\<close>

record protection_request =
  RequiredPullRequestReviews :: bool
  RequiredStatusChecks :: "string list option"

text \<open>The nil-safe getters: a nil receiver or a nil field reads as the zero value.\<close>

definition GetDescription :: "gh_repository option \<Rightarrow> string" where
  "GetDescription r = (case r of None \<Rightarrow> [] | Some g \<Rightarrow> (case gh_Description g of None \<Rightarrow> [] | Some d \<Rightarrow> d))"

definition GetArchived :: "gh_repository option \<Rightarrow> bool" where
  "GetArchived r = (case r of None \<Rightarrow> False | Some g \<Rightarrow> (case gh_Archived g of None \<Rightarrow> False | Some b \<Rightarrow> b))"

definition GetPrivate :: "gh_repository option \<Rightarrow> bool" where
  "GetPrivate r = (case r of None \<Rightarrow> False | Some g \<Rightarrow> (case gh_Private g of None \<Rightarrow> False | Some b \<Rightarrow> b))"

definition GetDefaultBranch :: "gh_repository option \<Rightarrow> string" where
  "GetDefaultBranch r = (case r of None \<Rightarrow> [] | Some g \<Rightarrow> (case gh_DefaultBranch g of None \<Rightarrow> [] | Some d \<Rightarrow> d))"

definition GetLogin :: "gh_user \<Rightarrow> string" where
  "GetLogin u = (case Login u of None \<Rightarrow> [] | Some l \<Rightarrow> l)"

definition GetEnabled :: "gh_protection option \<Rightarrow> bool" where
  "GetEnabled p = (case p of None \<Rightarrow> False | Some g \<Rightarrow> (case RequiredSignatures g of None \<Rightarrow> False | Some b \<Rightarrow> b))"

definition word_or_zero :: "64 word option \<Rightarrow> 64 word" where
  "word_or_zero x = (case x of None \<Rightarrow> 0 | Some n \<Rightarrow> n)"

text \<open>
  \<open>int64(x.GetPublicRepos()) + x.GetTotalPrivateRepos()\<close>: a 64-bit sum, wrapping; the
  receiver may be nil, and then both getters read 0.
\<close>

definition org_count :: "gh_organization option \<Rightarrow> 64 word" where
  "org_count x = (case x of None \<Rightarrow> 0 | Some g \<Rightarrow> word_or_zero (org_PublicRepos g) + word_or_zero (org_TotalPrivateRepos g))"

definition user_count :: "gh_user option \<Rightarrow> 64 word" where
  "user_count x = (case x of None \<Rightarrow> 0 | Some g \<Rightarrow> word_or_zero (user_PublicRepos g) + word_or_zero (user_TotalPrivateRepos g))"

section \<open>What a provider call returns\<close>

text \<open>
  Every call of the provider library returns a triple \<open>(value, resp, err)\<close>. The shapes the
  library produces are: a served request (value and response, no error; the response
  carries \<open>NextPage\<close>), an HTTP error (no value, the response with its status, an
  \<open>*ErrorResponse\<close>), a rate-limit signal (a \<open>*RateLimitError\<close>, with a 403 response when
  the flag is \<open>True\<close> and without a response otherwise), and a transport failure (no
  response, some other error). The projections below give back the three components the
  code inspects.
\<close>

datatype gh_error = RateLimitError | ErrorResponse nat | OtherError

record response =
  StatusCode :: nat
  NextPage :: nat

datatype 'a reply = Served 'a nat | HttpError nat | RateLimit bool | Transport

fun val_of :: "'a reply \<Rightarrow> 'a option" where
  "val_of (Served x np) = Some x"
| "val_of (HttpError st) = None"
| "val_of (RateLimit b) = None"
| "val_of Transport = None"

fun resp_of :: "'a reply \<Rightarrow> response option" where
  "resp_of (Served x np) = Some \<lparr>StatusCode = 200, NextPage = np\<rparr>"
| "resp_of (HttpError st) = Some \<lparr>StatusCode = st, NextPage = 0\<rparr>"
| "resp_of (RateLimit b) = (if b then Some \<lparr>StatusCode = 403, NextPage = 0\<rparr> else None)"
| "resp_of Transport = None"

fun err_of :: "'a reply \<Rightarrow> gh_error option" where
  "err_of (Served x np) = None"
| "err_of (HttpError st) = Some (ErrorResponse st)"
| "err_of (RateLimit b) = Some RateLimitError"
| "err_of Transport = Some OtherError"

text \<open>
  The errors of the program: the sentinel values of package \<open>client\<close>, the rate-limit
  error built by \<open>fmt.Errorf("github: hit rate limit")\<close>, a provider error wrapped with
  the name of the operation, a provider error passed on as it is, and the run-time panic
  of a nil dereference.
\<close>

datatype error =
    ErrOrgNotFound
  | ErrUserNotFound
  | ErrGetBranch
  | ErrRepoNotFound
  | ErrNoReposFound
  | ErrBranchProtectionNotFound
  | HitRateLimit
  | Wrapped string gh_error
  | Raw gh_error
  | NilDereference

section \<open>The report (package \<open>report\<close>)\<close>

text \<open>
  The report package is called for its effect only; the model records the calls, in
  order. The constructors are the package's functions.
\<close>

datatype line =
    PrintHeader string
  | PrintInfo string
  | PrintAdd string
  | PrintWarn string
  | PrintSuccess string
  | Println

section \<open>The Gateway (package \<open>client\<close>)\<close>

text \<open>
  \<open>ghClient\<close> is the provider library as the Gateway calls it: one function per
  endpoint, from the arguments to the reply. The listing endpoints take the page options
  (\<open>Type\<close> is always \<open>"all"\<close>).
\<close>

record list_options =
  Page :: nat
  PerPage :: nat

type_synonym gh_branch = string

record ghClient =
  Organizations_Get :: "string \<Rightarrow> gh_organization reply"
  Organizations_ListMembers :: "string \<Rightarrow> gh_user list reply"
  Organizations_CreateOrgInvitation :: "string \<times> int option \<Rightarrow> unit reply"
  Users_Get :: "string \<Rightarrow> gh_user reply"
  Repositories_Get :: "string \<times> string \<Rightarrow> gh_repository reply"
  Repositories_ListByOrg :: "string \<times> list_options \<Rightarrow> gh_repository list reply"
  Repositories_List :: "string \<times> list_options \<Rightarrow> gh_repository list reply"
  Repositories_ListAllTopics :: "string \<times> string \<Rightarrow> string list reply"
  Repositories_ListBranches :: "string \<times> string \<Rightarrow> gh_branch list reply"
  Repositories_GetBranchProtection :: "string \<times> string \<times> string \<Rightarrow> gh_protection reply"

text \<open>
  Each Gateway operation returns Go's pair \<open>(value, err)\<close> together with the list of
  provider calls it made, in order. \<open>c.rate.Wait(ctx)\<close> only delays the call (its error is
  ignored) and has no counterpart here.
\<close>

datatype pcall =
    Call_Organizations_Get string
  | Call_Organizations_ListMembers string
  | Call_Organizations_CreateOrgInvitation string "int option"
  | Call_Users_Get string
  | Call_Repositories_Get string string
  | Call_Repositories_ListByOrg string list_options
  | Call_Repositories_List string list_options
  | Call_Repositories_ListAllTopics string string
  | Call_Repositories_ListBranches string string
  | Call_Repositories_GetBranchProtection string string string

text \<open>\<open>slice_of\<close>: a nil slice and an empty slice are both the empty list.\<close>

definition slice_of :: "'a list option \<Rightarrow> 'a list" where
  "slice_of x = (case x of None \<Rightarrow> [] | Some xs \<Rightarrow> xs)"

subsection \<open>\<open>orgs.go\<close>\<close>

definition GetOrg :: "ghClient \<Rightarrow> string \<Rightarrow> (gh_organization option \<times> error option) \<times> pcall list" where
  "GetOrg c orgName =
     (let r = Organizations_Get c orgName in
      ((case err_of r of
          Some e \<Rightarrow>
            if e = RateLimitError then (None, Some (Raw e))
            else (case e of
                    ErrorResponse st \<Rightarrow>
                      if st = 404 then (None, Some ErrOrgNotFound) else (None, Some (Raw e))
                  | _ \<Rightarrow> (None, Some (Raw e)))
        | None \<Rightarrow> (val_of r, None)),
       [Call_Organizations_Get orgName]))"

definition OrgExists :: "ghClient \<Rightarrow> string \<Rightarrow> (bool \<times> error option) \<times> pcall list" where
  "OrgExists c orgName =
     (let ((org, err), log) = GetOrg c orgName in
      ((case err of
          Some e \<Rightarrow> if e = ErrOrgNotFound then (False, None) else (False, Some e)
        | None \<Rightarrow> (True, None)),
       log))"

text \<open>
  \<open>GetMembers\<close> calls \<open>ListMembers\<close> with nil options and returns the page it gets;
  the response's \<open>NextPage\<close> is not followed.
\<close>

definition GetMembers :: "ghClient \<Rightarrow> string \<Rightarrow> (gh_user list \<times> error option) \<times> pcall list" where
  "GetMembers c orgName =
     (let r = Organizations_ListMembers c orgName in
      ((case err_of r of
          Some e \<Rightarrow> if e = RateLimitError then ([], Some (Raw e)) else ([], Some (Raw e))
        | None \<Rightarrow> (slice_of (val_of r), None)),
       [Call_Organizations_ListMembers orgName]))"

text \<open>
  The function that \<open>InviteMember\<close> hands to \<open>c.Add\<close>: it runs later, when the work
  list is drained. It returns its error, the provider calls it made and what it printed.
\<close>

definition invite_job :: "ghClient \<Rightarrow> string \<Rightarrow> string \<Rightarrow> error option \<times> pcall list \<times> line list" where
  "invite_job c orgName username =
     (let r = Users_Get c username; log1 = [Call_Users_Get username] in
      case err_of r of
        Some e \<Rightarrow>
          if e = RateLimitError then (Some (Raw e), log1, [])
          else (case resp_of r of
                  None \<Rightarrow> (Some NilDereference, log1, [])
                | Some rp \<Rightarrow>
                    if StatusCode rp = 404 then (Some ErrUserNotFound, log1, [])
                    else (Some (Raw e), log1, []))
      | None \<Rightarrow>
          (case val_of r of
             None \<Rightarrow> (Some NilDereference, log1, [])
           | Some user \<Rightarrow>
               let r2 = Organizations_CreateOrgInvitation c (orgName, ID user);
                   log2 = log1 @ [Call_Organizations_CreateOrgInvitation orgName (ID user)]
               in (case err_of r2 of
                     Some e \<Rightarrow> if e = RateLimitError then (Some (Raw e), log2, []) else (Some (Raw e), log2, [])
                   | None \<Rightarrow> (None, log2, [PrintSuccess (''invited '' @ username), Println]))))"

subsection \<open>\<open>repos.go\<close>\<close>

text \<open>
  The paging loop of \<open>GetRepos\<close>. It ends when the provider reports \<open>NextPage = 0\<close> or
  an error; a provider that always names a next page keeps it running, so the loop is a
  partial function and not returning is the value \<open>None\<close>. Only the options of the
  account kind in use are read or written, so one page number stands for both option
  records.
\<close>

partial_function (option) list_pages ::
  "ghClient \<Rightarrow> string \<Rightarrow> bool \<Rightarrow> nat \<Rightarrow> gh_repository list \<Rightarrow> pcall list \<Rightarrow>
     ((gh_repository list \<times> error option) \<times> pcall list) option" where
  "list_pages c name orgFound page repos log =
     (let opts = \<lparr>Page = page, PerPage = 100\<rparr>;
          r = (if orgFound then Repositories_ListByOrg c (name, opts) else Repositories_List c (name, opts));
          log' = log @ [if orgFound then Call_Repositories_ListByOrg name opts else Call_Repositories_List name opts]
      in case err_of r of
           Some e \<Rightarrow>
             if e = RateLimitError then Some (([], Some HitRateLimit), log')
             else Some (([], Some (Wrapped ''list repos'' e)), log')
         | None \<Rightarrow>
             let repos' = repos @ filter (\<lambda>x. \<not> GetArchived (Some x)) (slice_of (val_of r)) in
             (case resp_of r of
                None \<Rightarrow> Some (([], Some NilDereference), log')
              | Some rp \<Rightarrow>
                  if NextPage rp = 0 then Some ((repos', None), log')
                  else list_pages c name orgFound (NextPage rp) repos' log'))"

definition GetRepos :: "ghClient \<Rightarrow> string \<Rightarrow> ((gh_repository list \<times> error option) \<times> pcall list) option" where
  "GetRepos c name =
     (let r = Organizations_Get c name; log1 = [Call_Organizations_Get name] in
      if resp_of r = None \<and> err_of r \<noteq> None then
        (if err_of r = Some RateLimitError then Some (([], Some HitRateLimit), log1)
         else (case err_of r of
                 Some e \<Rightarrow> Some (([], Some (Wrapped ''get org'' e)), log1)
               | None \<Rightarrow> Some (([], Some NilDereference), log1)))
      else
        (case resp_of r of
           None \<Rightarrow> Some (([], Some NilDereference), log1)
         | Some rp \<Rightarrow>
             if StatusCode rp = 404 then
               (let u = Users_Get c name; log2 = log1 @ [Call_Users_Get name] in
                case err_of u of
                  Some e \<Rightarrow>
                    if e = RateLimitError then Some (([], Some HitRateLimit), log2)
                    else Some (([], Some (Wrapped ''get user'' e)), log2)
                | None \<Rightarrow>
                    if user_count (val_of u) <s 1 then Some (([], Some ErrNoReposFound), log2)
                    else list_pages c name False 0 [] log2)
             else
               (if org_count (val_of r) <s 1 then Some (([], Some ErrNoReposFound), log1)
                else list_pages c name True 0 [] log1)))"

definition GetRepo :: "ghClient \<Rightarrow> string \<Rightarrow> string \<Rightarrow> (gh_repository option \<times> error option) \<times> pcall list" where
  "GetRepo c org name =
     (let r = Repositories_Get c (org, name) in
      ((case err_of r of
          Some e \<Rightarrow>
            if e = RateLimitError then (None, Some HitRateLimit)
            else (case resp_of r of
                    None \<Rightarrow> (None, Some NilDereference)
                  | Some rp \<Rightarrow>
                      if StatusCode rp = 404 then (None, Some ErrRepoNotFound)
                      else (None, Some (Wrapped ''get repo'' e)))
        | None \<Rightarrow> (val_of r, None)),
       [Call_Repositories_Get org name]))"

definition GetRepoTopics :: "ghClient \<Rightarrow> string \<Rightarrow> string \<Rightarrow> (string list \<times> error option) \<times> pcall list" where
  "GetRepoTopics c org name =
     (let r = Repositories_ListAllTopics c (org, name) in
      ((case err_of r of
          Some e \<Rightarrow>
            if e = RateLimitError then ([], Some HitRateLimit)
            else (case resp_of r of
                    None \<Rightarrow> ([], Some NilDereference)
                  | Some rp \<Rightarrow>
                      if StatusCode rp = 404 then ([], Some ErrRepoNotFound)
                      else ([], Some (Wrapped ''get repo topics'' e)))
        | None \<Rightarrow> (slice_of (val_of r), None)),
       [Call_Repositories_ListAllTopics org name]))"

definition GetBranches :: "ghClient \<Rightarrow> string \<Rightarrow> string \<Rightarrow> (gh_branch list \<times> error option) \<times> pcall list" where
  "GetBranches c org repo =
     (let r = Repositories_ListBranches c (org, repo) in
      ((case err_of r of
          Some e \<Rightarrow>
            if e = RateLimitError then ([], Some HitRateLimit)
            else (case resp_of r of
                    None \<Rightarrow> ([], Some NilDereference)
                  | Some rp \<Rightarrow>
                      if StatusCode rp = 404 then ([], Some ErrRepoNotFound)
                      else ([], Some (Wrapped ''get branches'' e)))
        | None \<Rightarrow> (slice_of (val_of r), None)),
       [Call_Repositories_ListBranches org repo]))"

definition GetBranchProtection ::
  "ghClient \<Rightarrow> string \<Rightarrow> string \<Rightarrow> string \<Rightarrow> (gh_protection option \<times> error option) \<times> pcall list" where
  "GetBranchProtection c org repo branch =
     (let r = Repositories_GetBranchProtection c (org, repo, branch) in
      ((case err_of r of
          Some e \<Rightarrow>
            if e = RateLimitError then (None, Some HitRateLimit)
            else (case resp_of r of
                    None \<Rightarrow> (None, Some NilDereference)
                  | Some rp \<Rightarrow>
                      if StatusCode rp = 404 then (None, Some ErrBranchProtectionNotFound)
                      else (None, Some (Wrapped ''get branch'' e)))
        | None \<Rightarrow> (val_of r, None)),
       [Call_Repositories_GetBranchProtection org repo branch]))"

definition IsBranchProtected ::
  "ghClient \<Rightarrow> string \<Rightarrow> string \<Rightarrow> string \<Rightarrow> (bool \<times> error option) \<times> pcall list" where
  "IsBranchProtected c org repo branch =
     (let r = Repositories_GetBranchProtection c (org, repo, branch) in
      ((case err_of r of
          Some e \<Rightarrow>
            if e = RateLimitError then (False, Some HitRateLimit)
            else (case resp_of r of
                    None \<Rightarrow> (False, Some NilDereference)
                  | Some rp \<Rightarrow>
                      if StatusCode rp = 404 then (False, None)
                      else (False, Some (Wrapped ''get branch'' e)))
        | None \<Rightarrow> (val_of r \<noteq> None, None)),
       [Call_Repositories_GetBranchProtection org repo branch]))"

section \<open>The world the commands run in\<close>

text \<open>
  The commands act on the provider through the Gateway, print through the report package
  and, for invitations, append to the client's work list. The state threaded through the
  model holds the provider (\<open>gh\<close>), the outbound calls made so far (\<open>calls\<close>), the report
  (\<open>printed\<close>) and the work list (\<open>work\<close>). A read is logged as the provider calls the
  Gateway made for it; a write is logged as the Gateway method called.
  \<open>write_error\<close> says which write calls the provider refuses, and with what error.
\<close>

datatype call =
    Provider pcall
  | CreateRepo_call string gh_repository
  | UpdateRepo_call string string gh_repository
  | SetRepoTopics_call string string "string list"
  | ProtectBranch_call string string string protection_request
  | RequireSignedCommits_call string string string


record world =
  gh :: ghClient
  write_error :: "call \<Rightarrow> error option"
  calls :: "call list"
  printed :: "line list"
  work :: "(string \<times> string) list"

definition emit :: "line list \<Rightarrow> world \<Rightarrow> world" where
  "emit ls w = w\<lparr>printed := printed w @ ls\<rparr>"

definition logged :: "call list \<Rightarrow> world \<Rightarrow> world" where
  "logged cs w = w\<lparr>calls := calls w @ cs\<rparr>"

definition set_repo :: "string \<times> string \<Rightarrow> gh_repository reply \<Rightarrow> world \<Rightarrow> world" where
  "set_repo k v w = w\<lparr>gh := (gh w)\<lparr>Repositories_Get := (Repositories_Get (gh w))(k := v)\<rparr>\<rparr>"

definition set_protection :: "string \<times> string \<times> string \<Rightarrow> gh_protection reply \<Rightarrow> world \<Rightarrow> world" where
  "set_protection k v w =
     w\<lparr>gh := (gh w)\<lparr>Repositories_GetBranchProtection := (Repositories_GetBranchProtection (gh w))(k := v)\<rparr>\<rparr>"

subsection \<open>Gateway reads, as the commands call them\<close>

definition clt_GetRepo :: "string \<Rightarrow> string \<Rightarrow> world \<Rightarrow> (gh_repository option \<times> error option) \<times> world" where
  "clt_GetRepo org name w = (let (res, pcs) = GetRepo (gh w) org name in (res, logged (map Provider pcs) w))"

definition clt_GetBranchProtection ::
  "string \<Rightarrow> string \<Rightarrow> string \<Rightarrow> world \<Rightarrow> (gh_protection option \<times> error option) \<times> world" where
  "clt_GetBranchProtection org repo b w =
     (let (res, pcs) = GetBranchProtection (gh w) org repo b in (res, logged (map Provider pcs) w))"

definition clt_GetMembers :: "string \<Rightarrow> world \<Rightarrow> (gh_user list \<times> error option) \<times> world" where
  "clt_GetMembers org w = (let (res, pcs) = GetMembers (gh w) org in (res, logged (map Provider pcs) w))"

text \<open>
  \<open>InviteMember\<close> (\<open>orgs.go\<close>) prints the intent and appends the invitation to the
  work list; the provider is called only when the list is drained (\<open>invite_job\<close>).
\<close>

definition clt_InviteMember :: "string \<Rightarrow> string \<Rightarrow> world \<Rightarrow> world" where
  "clt_InviteMember orgName username w =
     (emit [PrintAdd (''invite '' @ username), Println] w)\<lparr>work := work w @ [(orgName, username)]\<rparr>"

subsection \<open>Gateway writes\<close>

text \<open>
  The write operations of the Gateway (\<open>CreateRepo\<close>, \<open>UpdateRepo\<close>,
  \<open>SetRepoTopics\<close>, \<open>ProtectBranch\<close>, \<open>RequireSignedCommits\<close>) are called by the
  commands and are not among the sources. Each is logged as one call; a call the provider
  refuses (\<open>write_error\<close>) returns the error and changes nothing; an accepted call
  changes the provider as the spec describes the operation.
\<close>

text \<open>
  Modelled from the spec: the effect of a partial update on a repository object, missing
  with \<open>UpdateRepo\<close> ("partial patch: fields left unset in the request are untouched
  server-side").
\<close>

definition patch_repo :: "gh_repository \<Rightarrow> gh_repository \<Rightarrow> gh_repository" where
  "patch_repo edits g =
     g\<lparr>gh_Name := (case gh_Name edits of None \<Rightarrow> gh_Name g | Some x \<Rightarrow> Some x),
       gh_Description := (case gh_Description edits of None \<Rightarrow> gh_Description g | Some x \<Rightarrow> Some x),
       gh_Archived := (case gh_Archived edits of None \<Rightarrow> gh_Archived g | Some x \<Rightarrow> Some x),
       gh_Private := (case gh_Private edits of None \<Rightarrow> gh_Private g | Some x \<Rightarrow> Some x),
       gh_DefaultBranch := (case gh_DefaultBranch edits of None \<Rightarrow> gh_DefaultBranch g | Some x \<Rightarrow> Some x),
       gh_Topics := (if gh_Topics edits = [] then gh_Topics g else gh_Topics edits)\<rparr>"

text \<open>
  Modelled from the spec: \<open>CreateRepo\<close>, missing from the sources ("create with the full
  desired projection in one call"). The provider then serves the created object under the
  projection's name.
\<close>

definition clt_CreateRepo :: "string \<Rightarrow> gh_repository \<Rightarrow> world \<Rightarrow> error option \<times> world" where
  "clt_CreateRepo org state w =
     (let c = CreateRepo_call org state; w' = logged [c] w in
      case write_error w c of
        Some e \<Rightarrow> (Some e, w')
      | None \<Rightarrow>
          (case gh_Name state of
             None \<Rightarrow> (None, w')
           | Some n \<Rightarrow> (None, set_repo (org, n) (Served state 0) w')))"

text \<open>
  Modelled from the spec: \<open>UpdateRepo\<close>, missing from the sources ("updateRepository
  (partial patch)"). An existing repository is patched; nothing else changes.
\<close>

definition clt_UpdateRepo :: "string \<Rightarrow> string \<Rightarrow> gh_repository \<Rightarrow> world \<Rightarrow> error option \<times> world" where
  "clt_UpdateRepo org name edits w =
     (let c = UpdateRepo_call org name edits; w' = logged [c] w in
      case write_error w c of
        Some e \<Rightarrow> (Some e, w')
      | None \<Rightarrow>
          (case Repositories_Get (gh w) (org, name) of
             Served g np \<Rightarrow> (None, set_repo (org, name) (Served (patch_repo edits g) np) w')
           | _ \<Rightarrow> (None, w')))"

text \<open>
  Modelled from the spec: \<open>SetRepoTopics\<close>, missing from the sources ("setTopics (full
  replace)").
\<close>

definition clt_SetRepoTopics :: "string \<Rightarrow> string \<Rightarrow> string list \<Rightarrow> world \<Rightarrow> error option \<times> world" where
  "clt_SetRepoTopics org name topics w =
     (let c = SetRepoTopics_call org name topics; w' = logged [c] w in
      case write_error w c of
        Some e \<Rightarrow> (Some e, w')
      | None \<Rightarrow>
          (case Repositories_Get (gh w) (org, name) of
             Served g np \<Rightarrow> (None, set_repo (org, name) (Served (g\<lparr>gh_Topics := topics\<rparr>) np) w')
           | _ \<Rightarrow> (None, w')))"

text \<open>
  Modelled from the spec: \<open>ProtectBranch\<close>, missing from the sources
  ("updateBranchProtection"; the commands call it to create and to update). The
  provider then serves a protection with the request's content. The signed-commit
  requirement "is reconciled as a separate step against a separate endpoint": the call
  leaves it as it was, and a new protection has none.
\<close>

definition clt_ProtectBranch ::
  "string \<Rightarrow> string \<Rightarrow> string \<Rightarrow> protection_request \<Rightarrow> world \<Rightarrow> error option \<times> world" where
  "clt_ProtectBranch org repo b state w =
     (let c = ProtectBranch_call org repo b state; w' = logged [c] w in
      case write_error w c of
        Some e \<Rightarrow> (Some e, w')
      | None \<Rightarrow>
          (None,
           set_protection (org, repo, b)
             (Served \<lparr>RequiredPullRequestReviews_on = RequiredPullRequestReviews state,
                      RequiredStatusChecks_on = RequiredStatusChecks state,
                      RequiredSignatures =
                        (case Repositories_GetBranchProtection (gh w) (org, repo, b) of
                           Served p np \<Rightarrow> RequiredSignatures p
                         | _ \<Rightarrow> None)\<rparr> 0)
             w'))"

text \<open>
  Modelled from the spec: \<open>RequireSignedCommits\<close>, missing from the sources
  ("requireSignedCommits"). It takes no flag: it turns the requirement on for an
  existing protection.
\<close>

definition clt_RequireSignedCommits :: "string \<Rightarrow> string \<Rightarrow> string \<Rightarrow> world \<Rightarrow> error option \<times> world" where
  "clt_RequireSignedCommits org repo b w =
     (let c = RequireSignedCommits_call org repo b; w' = logged [c] w in
      case write_error w c of
        Some e \<Rightarrow> (Some e, w')
      | None \<Rightarrow>
          (case Repositories_GetBranchProtection (gh w) (org, repo, b) of
             Served p np \<Rightarrow> (None, set_protection (org, repo, b) (Served (p\<lparr>RequiredSignatures := Some True\<rparr>) np) w')
           | _ \<Rightarrow> (None, w')))"

section \<open>Repositories (\<open>check_repos.go\<close>)\<close>

text \<open>
  Every command function returns Go's \<open>error\<close> (\<open>None\<close> is nil) and the new world. A nil
  dereference panics; the panic ends the run and is modelled as the error
  \<open>NilDereference\<close>, which every caller passes on as it passes on any other error.
  The manifest objects are reached through pointers, so a function that writes to one
  returns it too. Where the dry-run and the apply branch of the source print the same lines
  with another verb, the lines are one function of the verb.
\<close>

definition no_edits :: gh_repository where
  "no_edits = \<lparr>gh_Name = None, gh_Description = None, gh_Archived = None, gh_Private = None,
                gh_DefaultBranch = None, gh_Topics = []\<rparr>"

text \<open>The patch \<open>edits\<close> of \<open>ensureRepo\<close>.\<close>

definition repo_edits :: "(string \<Rightarrow> string) \<Rightarrow> repository \<Rightarrow> gh_repository option \<Rightarrow> gh_repository" where
  "repo_edits cf repo ghr =
     (let edits0 = no_edits;
          edits1 = (case Description repo of
                      Some d \<Rightarrow> if \<not> EqualFold cf (GetDescription ghr) d then edits0\<lparr>gh_Description := Some d\<rparr> else edits0
                    | None \<Rightarrow> edits0);
          edits2 = (case Archived repo of
                      Some a \<Rightarrow> if GetArchived ghr \<noteq> a then edits1\<lparr>gh_Archived := Some a\<rparr> else edits1
                    | None \<Rightarrow> edits1);
          edits3 = (case Private repo of
                      Some p \<Rightarrow> if GetPrivate ghr \<noteq> p then edits2\<lparr>gh_Private := Some p\<rparr> else edits2
                    | None \<Rightarrow> edits2)
      in (case DefaultBranch repo of
            Some b \<Rightarrow> if \<not> EqualFold cf (GetDefaultBranch ghr) b then edits3\<lparr>gh_DefaultBranch := Some b\<rparr> else edits3
          | None \<Rightarrow> edits3))"

text \<open>The lines printed for a patch: \<open>verb\<close> is \<open>updating\<close> in a dry run, \<open>updated\<close> after the call.\<close>

definition edits_report :: "string \<Rightarrow> gh_repository \<Rightarrow> line list" where
  "edits_report verb edits =
     (case gh_Description edits of
        Some d \<Rightarrow> [PrintAdd (verb @ '' description to '' @ [CHR 0x27] @ d @ [CHR 0x27]), Println]
      | None \<Rightarrow> [])
     @ (case gh_Archived edits of
          Some a \<Rightarrow> [PrintAdd (verb @ '' archived to '' @ [CHR 0x27] @ fmt_bool a @ [CHR 0x27]), Println]
        | None \<Rightarrow> [])
     @ (case gh_Private edits of
          Some a \<Rightarrow> [PrintAdd (verb @ '' private to '' @ [CHR 0x27] @ fmt_bool a @ [CHR 0x27]), Println]
        | None \<Rightarrow> [])
     @ (case gh_DefaultBranch edits of
          Some b \<Rightarrow> [PrintAdd (verb @ '' default branch to '' @ [CHR 0x27] @ b @ [CHR 0x27]), Println]
        | None \<Rightarrow> [])"

text \<open>The projection \<open>state\<close> of \<open>createRepo\<close>.\<close>

definition create_state :: "repository \<Rightarrow> gh_repository" where
  "create_state repo =
     \<lparr>gh_Name = Some (RepoName repo),
      gh_Description = Description repo,
      gh_Archived = Archived repo,
      gh_Private = Private repo,
      gh_DefaultBranch = DefaultBranch repo,
      gh_Topics = (if length (Labels repo) > 0 then Labels repo else [])\<rparr>"

text \<open>The lines of \<open>createRepo\<close> after its first: \<open>verb\<close> is \<open>setting\<close> or \<open>set\<close>.\<close>

definition create_report :: "string \<Rightarrow> gh_repository \<Rightarrow> line list" where
  "create_report verb state =
     (case gh_Description state of
        Some d \<Rightarrow> [PrintAdd (verb @ '' description to '' @ [CHR 0x27] @ d @ [CHR 0x27]), Println]
      | None \<Rightarrow> [])
     @ (case gh_Archived state of
          Some a \<Rightarrow> [PrintAdd (verb @ '' archived to '' @ [CHR 0x27] @ fmt_bool a @ [CHR 0x27]), Println]
        | None \<Rightarrow> [])
     @ (if length (gh_Topics state) > 0
        then [PrintAdd (verb @ '' topics to ['' @ Join (gh_Topics state) '', '' @ '']''), Println]
        else [])
     @ (case gh_Private state of
          Some a \<Rightarrow> [PrintAdd (verb @ '' private to '' @ [CHR 0x27] @ fmt_bool a @ [CHR 0x27]), Println]
        | None \<Rightarrow> [])
     @ (case gh_DefaultBranch state of
          Some b \<Rightarrow> [PrintAdd (verb @ '' default branch to '' @ [CHR 0x27] @ b @ [CHR 0x27]), Println]
        | None \<Rightarrow> [])"

definition createRepo :: "string \<Rightarrow> repository \<Rightarrow> bool \<Rightarrow> world \<Rightarrow> error option \<times> world" where
  "createRepo org repo dry w =
     (let state = create_state repo in
      if dry then
        (None, emit ([PrintWarn (''creating repo '' @ RepoName repo), Println] @ create_report ''setting'' state) w)
      else
        (let (err, w1) = clt_CreateRepo org state w in
         if err \<noteq> None then (err, w1)
         else (None, emit ([PrintWarn (''created repo '' @ RepoName repo), Println] @ create_report ''set'' state) w1)))"

text \<open>
  \<open>ensureTopics\<close>. \<open>l := repo.Labels\<close> shares the manifest's slice, so
  \<open>slices.Sort(l)\<close> sorts the manifest's label list in place: the function returns the
  repository with it. (\<open>ghl\<close> likewise sorts the fetched object's topics, which nothing
  reads afterwards.) \<open>ghr.Topics\<close> is a field read, not a getter: on a nil \<open>ghr\<close> it panics.
\<close>

definition ensureTopics ::
  "string \<Rightarrow> repository \<Rightarrow> gh_repository option \<Rightarrow> bool \<Rightarrow> world \<Rightarrow> error option \<times> repository \<times> world" where
  "ensureTopics org repo ghr dry w =
     (if length (Labels repo) = 0 then (None, repo, w)
      else
        (case ghr of
           None \<Rightarrow> (Some NilDereference, repo, w)
         | Some g \<Rightarrow>
             (let ghl = sort (gh_Topics g);
                  l = sort (Labels repo);
                  repo' = repo\<lparr>Labels := l\<rparr>
              in if ghl \<noteq> l then
                   (if dry then
                      (None, repo', emit [PrintAdd (''updating labels to ['' @ Join l '', '' @ '']''), Println] w)
                    else
                      (let (err, w1) = clt_SetRepoTopics org (RepoName repo') l w in
                       if err \<noteq> None then (err, repo', w1)
                       else (None, repo', emit [PrintAdd (''updated labels to ['' @ Join l '', '' @ '']''), Println] w1)))
                 else
                   (None, repo', emit [PrintInfo (''labels are ['' @ Join l '', '' @ '']''), Println] w))))"

subsection \<open>Branch protection\<close>

text \<open>The request \<open>state\<close> that \<open>createProtectedBranch\<close> and \<open>UpdateBranchProtection\<close> build.\<close>

definition protection_state :: "branch \<Rightarrow> protection_request" where
  "protection_state b =
     \<lparr>RequiredPullRequestReviews = (RequirePr (Protection b) \<noteq> None),
      RequiredStatusChecks =
        (if ChecksMustPass (Protection b) \<noteq> None then Some (RequiredChecks (Protection b)) else None)\<rparr>"

text \<open>
  The lines both functions print for the request: \<open>verb\<close> is \<open>setting\<close>, \<open>set\<close>,
  \<open>updating\<close> or \<open>updated\<close>. The flags printed are dereferenced only where the request's
  field is set, that is where the flag is.
\<close>

definition protection_report :: "string \<Rightarrow> branch \<Rightarrow> protection_request \<Rightarrow> line list" where
  "protection_report verb b state =
     (if RequiredPullRequestReviews state then
        (case RequirePr (Protection b) of
           Some v \<Rightarrow> [PrintAdd (verb @ '' require pr to '' @ [CHR 0x27] @ fmt_bool v @ [CHR 0x27]), Println]
         | None \<Rightarrow> [])
      else [])
     @ (case RequiredStatusChecks state of
          Some checks \<Rightarrow>
            (case ChecksMustPass (Protection b) of
               Some v \<Rightarrow> [PrintAdd (verb @ '' require status checks to '' @ [CHR 0x27] @ fmt_bool v @ [CHR 0x27]), Println]
             | None \<Rightarrow> [])
            @ (if length checks > 0
               then [PrintAdd (verb @ '' required checks to ['' @ Join (RequiredChecks (Protection b)) '', '' @ '']''), Println]
               else [])
        | None \<Rightarrow> [])"

definition ensureSignedCommits :: "string \<Rightarrow> repository \<Rightarrow> branch \<Rightarrow> bool \<Rightarrow> world \<Rightarrow> error option \<times> world" where
  "ensureSignedCommits org repo b dry w =
     (case SignedCommits (Protection b) of
        None \<Rightarrow> (None, w)
      | Some sc \<Rightarrow>
          (let ((ghpb, err), w1) = clt_GetBranchProtection org (RepoName repo) (BranchName b) w in
           if err \<noteq> None then (err, w1)
           else if GetEnabled ghpb \<noteq> sc then
             (if dry then
                (None, emit [PrintAdd (''updating require signed commits to '' @ [CHR 0x27] @ fmt_bool sc @ [CHR 0x27]), Println] w1)
              else
                (let (err2, w2) = clt_RequireSignedCommits org (RepoName repo) (BranchName b) w1 in
                 if err2 \<noteq> None then (err2, w2)
                 else (None, emit [PrintAdd (''updated require signed commits to '' @ [CHR 0x27] @ fmt_bool sc @ [CHR 0x27]), Println] w2)))
           else
             (None, emit [PrintInfo (''require signed commits is '' @ [CHR 0x27] @ fmt_bool sc @ [CHR 0x27]), Println] w1)))"

definition createProtectedBranch :: "string \<Rightarrow> repository \<Rightarrow> branch \<Rightarrow> bool \<Rightarrow> world \<Rightarrow> error option \<times> world" where
  "createProtectedBranch org repo b dry w =
     (let state = protection_state b in
      if dry then
        ensureSignedCommits org repo b dry
          (emit ([PrintAdd (''create protected branch '' @ BranchName b @ '' for repo '' @ RepoName repo), Println]
                 @ protection_report ''setting'' b state) w)
      else
        (let (err, w1) = clt_ProtectBranch org (RepoName repo) (BranchName b) state w in
         if err \<noteq> None then (err, w1)
         else
           ensureSignedCommits org repo b dry
             (emit ([PrintWarn (''created protected branch '' @ BranchName b @ '' for repo '' @ RepoName repo), Println]
                    @ protection_report ''set'' b state) w1)))"

definition UpdateBranchProtection :: "string \<Rightarrow> repository \<Rightarrow> branch \<Rightarrow> bool \<Rightarrow> world \<Rightarrow> error option \<times> world" where
  "UpdateBranchProtection org repo b dry w =
     (let state = protection_state b;
          w0 = emit [PrintInfo (''protected branch '' @ [CHR 0x27] @ BranchName b @ [CHR 0x27] @ '' for repo '' @ RepoName repo), Println] w
      in if dry then
           ensureSignedCommits org repo b dry (emit (protection_report ''updating'' b state) w0)
         else
           (let (err, w1) = clt_ProtectBranch org (RepoName repo) (BranchName b) state w0 in
            if err \<noteq> None then (err, w1)
            else ensureSignedCommits org repo b dry (emit (protection_report ''updated'' b state) w1)))"

text \<open>The loop of \<open>ensureProtectedBranches\<close> over the branches still to do.\<close>

fun protect_each :: "string \<Rightarrow> repository \<Rightarrow> branch list \<Rightarrow> bool \<Rightarrow> world \<Rightarrow> error option \<times> world" where
  "protect_each org repo [] dry w = (None, w)"
| "protect_each org repo (pb # pbs) dry w =
     (let ((ghpb, err), w1) = clt_GetBranchProtection org (RepoName repo) (BranchName pb) w in
      case err of
        Some e \<Rightarrow>
          if e = ErrBranchProtectionNotFound then
            (let (err2, w2) = createProtectedBranch org repo pb dry w1 in
             if err2 \<noteq> None then (err2, w2) else protect_each org repo pbs dry w2)
          else (Some e, w1)
      | None \<Rightarrow>
          (let (err2, w2) = UpdateBranchProtection org repo pb dry w1 in
           if err2 \<noteq> None then (err2, w2) else protect_each org repo pbs dry w2))"

definition ensureProtectedBranches ::
  "string \<Rightarrow> repository \<Rightarrow> gh_repository option \<Rightarrow> bool \<Rightarrow> world \<Rightarrow> error option \<times> world" where
  "ensureProtectedBranches org repo ghr dry w = protect_each org repo (ProtectedBranches repo) dry w"

subsection \<open>One repository, all repositories\<close>

text \<open>
  \<open>ensureRepo\<close>. After \<open>createRepo\<close> the variable \<open>ghr\<close> is still the nil that the failed
  lookup returned: \<open>createRepo\<close> returns an error only.
\<close>

definition ensureRepo :: "(string \<Rightarrow> string) \<Rightarrow> string \<Rightarrow> repository \<Rightarrow> bool \<Rightarrow> world \<Rightarrow> error option \<times> repository \<times> world" where
  "ensureRepo cf org repo dry w =
     (let ((ghr, err), w1) = clt_GetRepo org (RepoName repo) w in
      if err \<noteq> None \<and> err \<noteq> Some ErrRepoNotFound then (err, repo, w1)
      else
        (let (err2, w2) = (if err = Some ErrRepoNotFound then createRepo org repo dry w1 else (None, w1)) in
         if err2 \<noteq> None then (err2, repo, w2)
         else
           (let edits = repo_edits cf repo ghr;
                (err3, w3) =
                  (if dry then (None, emit (edits_report ''updating'' edits) w2)
                   else
                     (let (e, w') = clt_UpdateRepo org (RepoName repo) edits w2 in
                      if e \<noteq> None then (e, w') else (None, emit (edits_report ''updated'' edits) w')))
            in if err3 \<noteq> None then (err3, repo, w3)
               else
                 (let (err4, repo', w4) = ensureTopics org repo ghr dry w3 in
                  if err4 \<noteq> None then (err4, repo', w4)
                  else
                    (let (err5, w5) = ensureProtectedBranches org repo' ghr dry w4 in
                     (err5, repo', w5))))))"

text \<open>
  The loop of \<open>reposRun\<close>; it returns the repositories as the run leaves them.
  \<open>handleError\<close> is not among the sources; it is taken to hand its error back.
\<close>

fun ensure_each :: "(string \<Rightarrow> string) \<Rightarrow> string \<Rightarrow> repository list \<Rightarrow> bool \<Rightarrow> world \<Rightarrow> error option \<times> repository list \<times> world" where
  "ensure_each cf org [] dry w = (None, [], w)"
| "ensure_each cf org (r # rs) dry w =
     (let (err, r', w1) = ensureRepo cf org r dry (emit [Println, PrintHeader (RepoName r), Println] w) in
      if err \<noteq> None then (err, r' # rs, w1)
      else (let (err2, rs', w2) = ensure_each cf org rs dry w1 in (err2, r' # rs', w2)))"

definition reposRun :: "(string \<Rightarrow> string) \<Rightarrow> organization \<Rightarrow> bool \<Rightarrow> world \<Rightarrow> error option \<times> organization \<times> world" where
  "reposRun cf org dry w =
     (let (err, rs', w1) = ensure_each cf (OrgName org) (Repositories org) dry (emit [Println, PrintHeader ''Repos'', Println] w)
      in (err, org\<lparr>Repositories := rs'\<rparr>, w1))"

section \<open>Members (\<open>check_members.go\<close>)\<close>

text \<open>
  \<open>managedMember\<close> and \<open>missingMembers\<close> read \<open>*member.Login\<close>, which panics on a
  member without login; they return \<open>Inl NilDereference\<close> then.
\<close>

fun managedMember :: "(string \<Rightarrow> string) \<Rightarrow> people list \<Rightarrow> gh_user \<Rightarrow> error + bool" where
  "managedMember cf [] member = Inr False"
| "managedMember cf (mm # mms) member =
     (case Login member of
        None \<Rightarrow> Inl NilDereference
      | Some l \<Rightarrow> if EqualFold cf (Username mm) l then Inr True else managedMember cf mms member)"

text \<open>The inner loop of \<open>missingMembers\<close>: the value of \<open>found\<close> for one manifest member.\<close>

fun found_in :: "(string \<Rightarrow> string) \<Rightarrow> people \<Rightarrow> gh_user list \<Rightarrow> error + bool" where
  "found_in cf mm [] = Inr False"
| "found_in cf mm (gm # gms) =
     (case Login gm of
        None \<Rightarrow> Inl NilDereference
      | Some l \<Rightarrow> if EqualFold cf (Username mm) l then Inr True else found_in cf mm gms)"

fun missingMembers :: "(string \<Rightarrow> string) \<Rightarrow> people list \<Rightarrow> gh_user list \<Rightarrow> error + people list" where
  "missingMembers cf [] githubMembers = Inr []"
| "missingMembers cf (mm # mms) githubMembers =
     (case found_in cf mm githubMembers of
        Inl e \<Rightarrow> Inl e
      | Inr found \<Rightarrow>
          (case missingMembers cf mms githubMembers of
             Inl e \<Rightarrow> Inl e
           | Inr missing \<Rightarrow> Inr (if \<not> found then mm # missing else missing)))"

text \<open>
  \<open>inviteMembers\<close> passes the member's \<open>Name\<close> to \<open>InviteMember\<close>. The Gateway's
  \<open>InviteMember\<close> has no result, so the error test after the call never fires.
\<close>

fun inviteMembers :: "string \<Rightarrow> people list \<Rightarrow> bool \<Rightarrow> world \<Rightarrow> error option \<times> world" where
  "inviteMembers org [] dry w = (None, w)"
| "inviteMembers org (m # ms) dry w =
     (if dry then inviteMembers org ms dry (emit [PrintAdd (''invite '' @ Name m), Println] w)
      else inviteMembers org ms dry (emit [PrintAdd (''invited '' @ Name m), Println] (clt_InviteMember org (Name m) w)))"

text \<open>The loop of \<open>membersRun\<close> over the provider's members.\<close>

fun report_members :: "(string \<Rightarrow> string) \<Rightarrow> people list \<Rightarrow> gh_user list \<Rightarrow> world \<Rightarrow> error option \<times> world" where
  "report_members cf manifestMembers [] w = (None, w)"
| "report_members cf manifestMembers (p # ps) w =
     (case managedMember cf manifestMembers p of
        Inl e \<Rightarrow> (Some e, w)
      | Inr managed \<Rightarrow>
          report_members cf manifestMembers ps
            (emit [if \<not> managed then PrintWarn (GetLogin p @ '' exists in github but not in manifest'')
                   else PrintInfo (GetLogin p @ '' exists in github''),
                   Println] w))"

definition membersRun :: "(string \<Rightarrow> string) \<Rightarrow> organization \<Rightarrow> bool \<Rightarrow> world \<Rightarrow> error option \<times> world" where
  "membersRun cf org dry w =
     (let w0 = emit [Println, PrintHeader ''Members'', Println] w;
          ((ps, err), w1) = clt_GetMembers (OrgName org) w0
      in if err \<noteq> None then (err, w1)
         else
           (let (err2, w2) = report_members cf (People org) ps w1 in
            if err2 \<noteq> None then (err2, w2)
            else
              (case missingMembers cf (People org) ps of
                 Inl e \<Rightarrow> (Some e, w2)
               | Inr missing \<Rightarrow> inviteMembers (OrgName org) missing dry w2)))"

section \<open>The commands (\<open>apply.go\<close>)\<close>


definition checkReposRun :: "(string \<Rightarrow> string) \<Rightarrow> organization \<Rightarrow> world \<Rightarrow> error option \<times> organization \<times> world" where
  "checkReposRun cf org w = reposRun cf org True (emit [PrintHeader ''Org'', Println] w)"

definition checkMembersRun :: "(string \<Rightarrow> string) \<Rightarrow> organization \<Rightarrow> world \<Rightarrow> error option \<times> world" where
  "checkMembersRun cf org w = membersRun cf org True (emit [PrintHeader ''Org'', Println] w)"

section \<open>Definitions used to state the properties\<close>

subsection \<open>Sample inputs\<close>

text \<open>A provider that knows nothing: every endpoint answers 404.\<close>

definition closed_gh :: ghClient where
  "closed_gh =
     \<lparr>Organizations_Get = (\<lambda>_. HttpError 404),
      Organizations_ListMembers = (\<lambda>_. HttpError 404),
      Organizations_CreateOrgInvitation = (\<lambda>_. HttpError 404),
      Users_Get = (\<lambda>_. HttpError 404),
      Repositories_Get = (\<lambda>_. HttpError 404),
      Repositories_ListByOrg = (\<lambda>_. HttpError 404),
      Repositories_List = (\<lambda>_. HttpError 404),
      Repositories_ListAllTopics = (\<lambda>_. HttpError 404),
      Repositories_ListBranches = (\<lambda>_. HttpError 404),
      Repositories_GetBranchProtection = (\<lambda>_. HttpError 404)\<rparr>"

text \<open>The start of a run: nothing called, printed or queued; every write accepted.\<close>

definition world_of :: "ghClient \<Rightarrow> world" where
  "world_of c = \<lparr>gh = c, write_error = (\<lambda>_. None), calls = [], printed = [], work = []\<rparr>"

definition plain_repo :: "string \<Rightarrow> repository" where
  "plain_repo n = \<lparr>RepoName = n, Description = None, Archived = None, Private = None, DefaultBranch = None,
     Labels = [], ProtectedBranches = []\<rparr>"

definition plain_gh_repo :: "string \<Rightarrow> gh_repository" where
  "plain_gh_repo n = \<lparr>gh_Name = Some n, gh_Description = None, gh_Archived = None, gh_Private = None,
     gh_DefaultBranch = None, gh_Topics = []\<rparr>"

definition archived_repo :: "string \<Rightarrow> gh_repository" where
  "archived_repo n = (plain_gh_repo n)\<lparr>gh_Archived := Some True\<rparr>"

definition user_of :: "string \<Rightarrow> gh_user" where
  "user_of l = \<lparr>Login = Some l, ID = None, user_PublicRepos = None, user_TotalPrivateRepos = None\<rparr>"

definition repo_c3 :: repository where
  "repo_c3 = (plain_repo ''r'')\<lparr>Description := Some ''new text'', Archived := Some False, Private := Some True,
                              DefaultBranch := Some ''Main''\<rparr>"

definition gh_c3 :: gh_repository where
  "gh_c3 = (plain_gh_repo ''r'')\<lparr>gh_Description := Some ''old text'', gh_Private := Some True, gh_DefaultBranch := Some ''main''\<rparr>"

definition org_c8 :: organization where
  "org_c8 = \<lparr>OrgName = ''acme'',
             People = [\<lparr>Name = ''Alice A'', Username = ''alice''\<rparr>, \<lparr>Name = ''Bob B'', Username = ''Bob''\<rparr>],
             Repositories = []\<rparr>"

text \<open>
  A provider with the members bob and carol that knows the user alice and accepts
  invitations.
\<close>

definition gh_c8 :: ghClient where
  "gh_c8 =
     closed_gh
       \<lparr>Organizations_ListMembers := (\<lambda>_. Served [user_of ''bob'', user_of ''carol''] 0),
        Users_Get := (\<lambda>u. if u = ''alice'' then Served ((user_of ''alice'')\<lparr>ID := Some 7\<rparr>) 0 else HttpError 404),
        Organizations_CreateOrgInvitation := (\<lambda>_. Served () 0)\<rparr>"

definition org_c9 :: organization where
  "org_c9 = \<lparr>OrgName = ''acme'', People = [], Repositories = [(plain_repo ''r'')\<lparr>Labels := [''b'', ''a'']\<rparr>]\<rparr>"

definition gh_c9 :: ghClient where
  "gh_c9 = closed_gh\<lparr>Repositories_Get := (\<lambda>_. Served ((plain_gh_repo ''r'')\<lparr>gh_Topics := [''a'', ''b'']\<rparr>) 0)\<rparr>"

subsection \<open>Paging\<close>

text \<open>
  Modelled from the spec: the simulated account of the pagination property, a provider
  that serves the listing \<open>rs\<close> in pages of \<open>PerPage\<close>, takes page 0 for page 1, and
  names the next page as long as repositories remain.
\<close>

definition paged :: "'a list \<Rightarrow> list_options \<Rightarrow> 'a list reply" where
  "paged rs opts =
     (let p = (if Page opts = 0 then 1 else Page opts); n = PerPage opts
      in Served (take n (drop ((p - 1) * n) rs)) (if p * n < length rs then p + 1 else 0))"

definition account_gh :: "gh_repository list \<Rightarrow> ghClient" where
  "account_gh rs =
     closed_gh\<lparr>Organizations_Get := (\<lambda>_. Served \<lparr>org_PublicRepos = Some (of_nat (length rs)), org_TotalPrivateRepos = Some 0\<rparr> 0),
               Repositories_ListByOrg := (\<lambda>(n, opts). paged rs opts)\<rparr>"

text \<open>The same listing under a user account: no organization of that name.\<close>

definition user_account_gh :: "gh_repository list \<Rightarrow> ghClient" where
  "user_account_gh rs =
     closed_gh\<lparr>Users_Get := (\<lambda>l. Served ((user_of l)\<lparr>user_PublicRepos := Some (of_nat (length rs))\<rparr>) 0),
               Repositories_List := (\<lambda>(n, opts). paged rs opts)\<rparr>"

text \<open>The listing call of the loop, for the account kind in use, and the endpoint it reaches.\<close>

definition list_call :: "string \<Rightarrow> bool \<Rightarrow> nat \<Rightarrow> pcall" where
  "list_call name orgFound p =
     (if orgFound then Call_Repositories_ListByOrg name \<lparr>Page = p, PerPage = 100\<rparr>
      else Call_Repositories_List name \<lparr>Page = p, PerPage = 100\<rparr>)"

definition listing :: "ghClient \<Rightarrow> string \<Rightarrow> bool \<Rightarrow> list_options \<Rightarrow> gh_repository list reply" where
  "listing c name orgFound opts =
     (if orgFound then Repositories_ListByOrg c (name, opts) else Repositories_List c (name, opts))"

text \<open>The repositories of a listing that are not archived.\<close>

definition live :: "gh_repository list \<Rightarrow> gh_repository list" where
  "live rs = filter (\<lambda>x. \<not> GetArchived (Some x)) rs"

text \<open>\<open>ceil(n / 100)\<close>, and the page numbers the loop asks for when the listing has \<open>n\<close> entries.\<close>

definition pages_needed :: "nat \<Rightarrow> nat" where
  "pages_needed n = (n + 99) div 100"

definition pages_asked :: "nat \<Rightarrow> nat list" where
  "pages_asked n = 0 # [2 ..< Suc (pages_needed n)]"

subsection \<open>The membership diff, in the spec's words\<close>

text \<open>
  A remote member is unmanaged when no manifest member has its login, compared
  case-insensitively; a manifest member is missing when no remote member has its
  username. These two follow the spec; \<open>managedMember\<close> and \<open>missingMembers\<close> are
  compared with them.
\<close>

definition spec_unmanaged :: "(string \<Rightarrow> string) \<Rightarrow> people list \<Rightarrow> gh_user \<Rightarrow> bool" where
  "spec_unmanaged cf manifest p = (\<not> (\<exists>mm \<in> set manifest. EqualFold cf (Username mm) (GetLogin p)))"

definition spec_missing :: "(string \<Rightarrow> string) \<Rightarrow> people list \<Rightarrow> gh_user list \<Rightarrow> people list" where
  "spec_missing cf manifest remote =
     filter (\<lambda>mm. \<not> (\<exists>p \<in> set remote. EqualFold cf (Username mm) (GetLogin p))) manifest"

text \<open>The lines \<open>membersRun\<close> prints for one remote member and for one missing member.\<close>

definition member_line :: "(string \<Rightarrow> string) \<Rightarrow> people list \<Rightarrow> gh_user \<Rightarrow> line list" where
  "member_line cf manifest p =
     [if spec_unmanaged cf manifest p then PrintWarn (GetLogin p @ '' exists in github but not in manifest'')
      else PrintInfo (GetLogin p @ '' exists in github''), Println]"

definition invite_lines :: "bool \<Rightarrow> people \<Rightarrow> line list" where
  "invite_lines dry m =
     (if dry then [PrintAdd (''invite '' @ Name m), Println]
      else [PrintAdd (''invite '' @ Name m), Println, PrintAdd (''invited '' @ Name m), Println])"

subsection \<open>A provider at its rate limit\<close>

definition limited_gh :: ghClient where
  "limited_gh =
     \<lparr>Organizations_Get = (\<lambda>_. RateLimit True),
      Organizations_ListMembers = (\<lambda>_. RateLimit True),
      Organizations_CreateOrgInvitation = (\<lambda>_. RateLimit True),
      Users_Get = (\<lambda>_. RateLimit True),
      Repositories_Get = (\<lambda>_. RateLimit True),
      Repositories_ListByOrg = (\<lambda>_. RateLimit True),
      Repositories_List = (\<lambda>_. RateLimit True),
      Repositories_ListAllTopics = (\<lambda>_. RateLimit True),
      Repositories_ListBranches = (\<lambda>_. RateLimit True),
      Repositories_GetBranchProtection = (\<lambda>_. RateLimit True)\<rparr>"

subsection \<open>A remote in sync with the manifest\<close>










subsection \<open>Reports that differ only in tense\<close>

text \<open>
  The verbs of the report, dry run and apply. Two messages are the same but for tense when
  they are equal, or one starts with a dry-run verb, the other with its apply form, and
  the rest is the same. Two lines are the same but for tense when they have the same
  marker and such messages.
\<close>

definition tenses :: "(string \<times> string) list" where
  "tenses = [(''updating'', ''updated''), (''setting'', ''set''), (''creating'', ''created''),
             (''create'', ''created''), (''invite'', ''invited'')]"

definition retensed :: "string \<Rightarrow> string \<Rightarrow> bool" where
  "retensed d a =
     (d = a \<or> list_ex (\<lambda>(p, q). take (length p) d = p \<and> take (length q) a = q
                                  \<and> drop (length p) d = drop (length q) a) tenses)"

fun same_but_tense :: "line \<Rightarrow> line \<Rightarrow> bool" where
  "same_but_tense (PrintHeader d) (PrintHeader a) = (d = a)"
| "same_but_tense (PrintInfo d) (PrintInfo a) = retensed d a"
| "same_but_tense (PrintAdd d) (PrintAdd a) = retensed d a"
| "same_but_tense (PrintWarn d) (PrintWarn a) = retensed d a"
| "same_but_tense (PrintSuccess d) (PrintSuccess a) = retensed d a"
| "same_but_tense Println Println = True"
| "same_but_tense _ _ = False"

text \<open>
  The relation kept between a dry run and an apply run: the provider accepts every
  write of the apply run, the reports so far are the same but for tense, and the two
  providers answer alike on the repository keys \<open>RK\<close> and the protection keys \<open>PK\<close>
  (the keys the rest of the run will read).
\<close>

definition sim :: "(string \<times> string) set \<Rightarrow> (string \<times> string \<times> string) set \<Rightarrow> world \<Rightarrow> world \<Rightarrow> bool" where
  "sim RK PK wd wa =
     (write_error wa = (\<lambda>_. None)
      \<and> list_all2 same_but_tense (printed wd) (printed wa)
      \<and> (\<forall>k \<in> RK. Repositories_Get (gh wd) k = Repositories_Get (gh wa) k)
      \<and> (\<forall>k \<in> PK. Repositories_GetBranchProtection (gh wd) k = Repositories_GetBranchProtection (gh wa) k))"

text \<open>The update path of \<open>ensureRepo\<close>, from the patch on.\<close>

definition ensureRepo_rest ::
  "(string \<Rightarrow> string) \<Rightarrow> string \<Rightarrow> repository \<Rightarrow> gh_repository option \<Rightarrow> bool \<Rightarrow> world \<Rightarrow> error option \<times> repository \<times> world" where
  "ensureRepo_rest cf org repo ghr dry w2 =
     (let edits = repo_edits cf repo ghr;
          (err3, w3) =
            (if dry then (None, emit (edits_report ''updating'' edits) w2)
             else
               (let (e, w') = clt_UpdateRepo org (RepoName repo) edits w2 in
                if e \<noteq> None then (e, w') else (None, emit (edits_report ''updated'' edits) w')))
      in if err3 \<noteq> None then (err3, repo, w3)
         else
           (let (err4, repo', w4) = ensureTopics org repo ghr dry w3 in
            if err4 \<noteq> None then (err4, repo', w4)
            else
              (let (err5, w5) = ensureProtectedBranches org repo' ghr dry w4 in
               (err5, repo', w5))))"

text \<open>Sample manifests and providers with a branch to protect.\<close>

definition main_branch :: branch where
  "main_branch =
     \<lparr>BranchName = ''main'',
      Protection = \<lparr>RequirePr = Some True, ChecksMustPass = None, RequiredChecks = [], SignedCommits = Some True\<rparr>\<rparr>"

definition org_c2 :: organization where
  "org_c2 =
     \<lparr>OrgName = ''acme'', People = [],
      Repositories = [(plain_repo ''r'')\<lparr>ProtectedBranches := [main_branch]\<rparr>]\<rparr>"

definition gh_c2 :: ghClient where
  "gh_c2 = closed_gh\<lparr>Repositories_Get := (\<lambda>_. Served (plain_gh_repo ''r'') 0)\<rparr>"

section \<open>Properties\<close>

subsection \<open>Sorting and multisets\<close>

lemma sort_eq_iff_mset_eq: "sort xs = sort ys \<longleftrightarrow> mset xs = mset (ys :: 'a :: linorder list)"
proof
  assume "sort xs = sort ys"
  then have "mset (sort xs) = mset (sort ys)" by simp
  then show "mset xs = mset ys" by simp
next
  assume "mset xs = mset ys"
  then show "sort xs = sort ys"
    by (simp add: properties_for_sort)
qed

subsection \<open>The repository patch\<close>

text \<open>
  C3 (minimal patch). For every manifest repository and every current remote object (nil
  included), each of the four fields of the patch is the manifest's value when the
  manifest sets the field and that value differs from what the getter reads remotely
  (descriptions and default branches compared by \<open>EqualFold\<close>, under any folding \<open>cf\<close>, so
  under Go's Unicode folding too), and is unset otherwise;
  name and topics are never in the patch. In particular, when the description is the only
  such field, the patch is the empty patch with the description set.
\<close>

theorem repo_edits_minimal: 
  "gh_Description (repo_edits cf repo ghr) =
      (if \<exists>d. Description repo = Some d \<and> \<not> EqualFold cf (GetDescription ghr) d then Description repo else None)
   \<and> gh_Archived (repo_edits cf repo ghr) =
      (if \<exists>a. Archived repo = Some a \<and> GetArchived ghr \<noteq> a then Archived repo else None)
   \<and> gh_Private (repo_edits cf repo ghr) =
      (if \<exists>a. Private repo = Some a \<and> GetPrivate ghr \<noteq> a then Private repo else None)
   \<and> gh_DefaultBranch (repo_edits cf repo ghr) =
      (if \<exists>d. DefaultBranch repo = Some d \<and> \<not> EqualFold cf (GetDefaultBranch ghr) d then DefaultBranch repo else None)
   \<and> gh_Name (repo_edits cf repo ghr) = None
   \<and> gh_Topics (repo_edits cf repo ghr) = []
   \<and> ((\<exists>d. Description repo = Some d \<and> \<not> EqualFold cf (GetDescription ghr) d)
        \<and> \<not> (\<exists>a. Archived repo = Some a \<and> GetArchived ghr \<noteq> a)
        \<and> \<not> (\<exists>a. Private repo = Some a \<and> GetPrivate ghr \<noteq> a)
        \<and> \<not> (\<exists>d. DefaultBranch repo = Some d \<and> \<not> EqualFold cf (GetDefaultBranch ghr) d)
       \<longrightarrow> repo_edits cf repo ghr = no_edits\<lparr>gh_Description := Description repo\<rparr>)"
  by (auto simp: repo_edits_def no_edits_def Let_def split: option.splits)

theorem repo_edits_minimal_witness:
  "repo_edits ascii_fold repo_c3 (Some gh_c3) = no_edits\<lparr>gh_Description := Some ''new text''\<rparr>
   \<and> gh_Description (repo_edits ascii_fold (repo_c3\<lparr>Private := Some False, Archived := Some True\<rparr>) (Some gh_c3))
       = Some ''new text''
   \<and> gh_Archived (repo_edits ascii_fold (repo_c3\<lparr>Private := Some False, Archived := Some True\<rparr>) (Some gh_c3))
       = Some True
   \<and> gh_Private (repo_edits ascii_fold (repo_c3\<lparr>Private := Some False, Archived := Some True\<rparr>) (Some gh_c3))
       = Some False
   \<and> gh_DefaultBranch (repo_edits ascii_fold (repo_c3\<lparr>Private := Some False, Archived := Some True\<rparr>) (Some gh_c3))
       = None"
proof -
  have a: "repo_edits ascii_fold repo_c3 (Some gh_c3) = no_edits\<lparr>gh_Description := Some ''new text''\<rparr>"
    using repo_edits_minimal [of ascii_fold repo_c3 "Some gh_c3"]
    by (simp add: repo_c3_def gh_c3_def plain_repo_def plain_gh_repo_def EqualFold_def ascii_fold_def to_lower_def
        GetDescription_def GetArchived_def GetPrivate_def GetDefaultBranch_def)
  have b: "gh_Description (repo_edits ascii_fold (repo_c3\<lparr>Private := Some False, Archived := Some True\<rparr>) (Some gh_c3))
       = Some ''new text''
   \<and> gh_Archived (repo_edits ascii_fold (repo_c3\<lparr>Private := Some False, Archived := Some True\<rparr>) (Some gh_c3))
       = Some True
   \<and> gh_Private (repo_edits ascii_fold (repo_c3\<lparr>Private := Some False, Archived := Some True\<rparr>) (Some gh_c3))
       = Some False
   \<and> gh_DefaultBranch (repo_edits ascii_fold (repo_c3\<lparr>Private := Some False, Archived := Some True\<rparr>) (Some gh_c3))
       = None"
    using repo_edits_minimal [of ascii_fold "repo_c3\<lparr>Private := Some False, Archived := Some True\<rparr>" "Some gh_c3"]
    by (simp add: repo_c3_def gh_c3_def plain_repo_def plain_gh_repo_def EqualFold_def ascii_fold_def to_lower_def
        GetDescription_def GetArchived_def GetPrivate_def GetDefaultBranch_def ex_bool_eq)
  show ?thesis using a b by simp
qed

subsection \<open>Topics\<close>

text \<open>
  C10 (an empty label list disables topic management). With no labels in the manifest,
  \<open>ensureTopics\<close> returns at once: no error, the manifest repository as it was, and the
  world as it was (nothing read, called, printed or queued), whatever the remote object
  and the mode.
\<close>

theorem empty_labels_unmanaged:
  "Labels repo = [] \<Longrightarrow> ensureTopics org repo ghr dry w = (None, repo, w)"
  by (simp add: ensureTopics_def)

theorem empty_labels_unmanaged_witness:
  "ensureTopics ''o'' (plain_repo ''r'') (Some ((plain_gh_repo ''r'')\<lparr>gh_Topics := [''a'']\<rparr>)) False (world_of closed_gh)
     = (None, plain_repo ''r'', world_of closed_gh)"
  using empty_labels_unmanaged [of "plain_repo ''r''" "''o''" "Some ((plain_gh_repo ''r'')\<lparr>gh_Topics := [''a'']\<rparr>)" False "world_of closed_gh"]
  by (simp add: plain_repo_def)

text \<open>
  C5 (topic order-independence), as the code has it. On an existing remote object,
  \<open>ensureTopics\<close> issues a call exactly when it runs in apply mode, the manifest's label
  list is not empty, and labels and remote topics differ as multisets; the call is then
  the one replace-all-topics call, carrying the labels in sorted order. Labels and topics
  that are equal as multisets lead to no call.
\<close>

theorem topics_set_call:
  "calls (snd (snd (ensureTopics org repo (Some g) dry w))) =
     calls w @ (if \<not> dry \<and> Labels repo \<noteq> [] \<and> mset (Labels repo) \<noteq> mset (gh_Topics g)
                then [SetRepoTopics_call org (RepoName repo) (sort (Labels repo))] else [])"
  by (auto simp: ensureTopics_def Let_def emit_def clt_SetRepoTopics_def logged_def set_repo_def
        sort_eq_iff_mset_eq split: option.splits reply.splits)

theorem topics_set_call_witness:
  "calls (snd (snd (ensureTopics ''o'' ((plain_repo ''r'')\<lparr>Labels := [''b'', ''a'']\<rparr>) 
        (Some ((plain_gh_repo ''r'')\<lparr>gh_Topics := [''a'', ''b'']\<rparr>)) False (world_of closed_gh)))) = []
   \<and> calls (snd (snd (ensureTopics ''o'' ((plain_repo ''r'')\<lparr>Labels := [''b'', ''a'']\<rparr>) 
        (Some ((plain_gh_repo ''r'')\<lparr>gh_Topics := [''a'', ''c'']\<rparr>)) False (world_of closed_gh))))
      = [SetRepoTopics_call ''o'' ''r'' [''a'', ''b'']]"
  using topics_set_call [of "''o''" "(plain_repo ''r'')\<lparr>Labels := [''b'', ''a'']\<rparr>" "(plain_gh_repo ''r'')\<lparr>gh_Topics := [''a'', ''b'']\<rparr>" False "world_of closed_gh"]
     topics_set_call [of "''o''" "(plain_repo ''r'')\<lparr>Labels := [''b'', ''a'']\<rparr>" "(plain_gh_repo ''r'')\<lparr>gh_Topics := [''a'', ''c'']\<rparr>" False "world_of closed_gh"]
  by (simp add: plain_repo_def plain_gh_repo_def world_of_def)

text \<open>
  C5 as stated fails for an empty label list: labels \<open>[]\<close> and remote topics \<open>[a]\<close>
  differ as multisets, and no call is issued.
\<close>

theorem topics_differ_counterexample:
  "mset (Labels (plain_repo ''r'')) \<noteq> mset (gh_Topics ((plain_gh_repo ''r'')\<lparr>gh_Topics := [''a'']\<rparr>))
   \<and> calls (snd (snd (ensureTopics ''o'' (plain_repo ''r'') (Some ((plain_gh_repo ''r'')\<lparr>gh_Topics := [''a'']\<rparr>)) False (world_of closed_gh)))) = []"
  by (simp add: ensureTopics_def plain_repo_def plain_gh_repo_def world_of_def)

subsection \<open>Manifest mutation\<close>

text \<open>
  C9 (manifest immutability) at a failing input: the manifest lists the labels \<open>[b, a]\<close>
  for a repository whose remote topics are \<open>[a, b]\<close>. A dry run succeeds and leaves the
  manifest's label list as \<open>[a, b]\<close>: \<open>ensureTopics\<close> has sorted it in place.
\<close>

theorem manifest_labels_reordered:
  "map Labels (Repositories org_c9) = [[''b'', ''a'']]
   \<and> fst (reposRun ascii_fold org_c9 True (world_of gh_c9)) = None
   \<and> map Labels (Repositories (fst (snd (reposRun ascii_fold org_c9 True (world_of gh_c9))))) = [[''a'', ''b'']]"
  by (simp add: org_c9_def gh_c9_def reposRun_def ensureRepo_def clt_GetRepo_def GetRepo_def world_of_def
      closed_gh_def plain_repo_def plain_gh_repo_def Let_def emit_def logged_def ensureTopics_def
      ensureProtectedBranches_def)

subsection \<open>Creation\<close>

text \<open>
  C4 (create-then-update convergence) at two failing inputs, in apply mode against a
  provider without the repository. With the description \<open>d\<close> in the manifest, the run
  creates the repository with the full projection and then sends an update whose patch
  sets the description again: the patch is computed against the nil object of the failed
  lookup, not against the created repository. With a label in the manifest, the run
  ends in the nil dereference of \<open>ensureTopics\<close>.
\<close>

theorem create_leaves_current_state_nil:
  "(let (err, r, w) = ensureRepo ascii_fold ''acme'' ((plain_repo ''r'')\<lparr>Description := Some ''d''\<rparr>) False (world_of closed_gh)
    in (err, calls w))
   = (None, [Provider (Call_Repositories_Get ''acme'' ''r''),
             CreateRepo_call ''acme'' ((plain_gh_repo ''r'')\<lparr>gh_Description := Some ''d''\<rparr>),
             UpdateRepo_call ''acme'' ''r'' (no_edits\<lparr>gh_Description := Some ''d''\<rparr>)])
   \<and> fst (ensureRepo ascii_fold ''acme'' ((plain_repo ''r'')\<lparr>Labels := [''x'']\<rparr>) False (world_of closed_gh)) = Some NilDereference"
  by (simp add: ensureRepo_def clt_GetRepo_def GetRepo_def world_of_def createRepo_def create_state_def
      clt_CreateRepo_def clt_UpdateRepo_def set_repo_def repo_edits_def no_edits_def EqualFold_def ascii_fold_def GetDescription_def
      closed_gh_def plain_repo_def plain_gh_repo_def Let_def emit_def logged_def ensureTopics_def
      ensureProtectedBranches_def edits_report_def create_report_def)

subsection \<open>Members\<close>

lemma managedMember_eq:
  "Login p \<noteq> None \<Longrightarrow> managedMember cf mms p = Inr (\<not> spec_unmanaged cf mms p)"
  by (induction mms) (auto simp: spec_unmanaged_def GetLogin_def)

lemma found_in_eq:
  "\<forall>p \<in> set gms. Login p \<noteq> None \<Longrightarrow>
   found_in cf mm gms = Inr (\<exists>p \<in> set gms. EqualFold cf (Username mm) (GetLogin p))"
  by (induction gms) (auto simp: GetLogin_def)

lemma missingMembers_eq:
  "\<forall>p \<in> set gms. Login p \<noteq> None \<Longrightarrow> missingMembers cf mms gms = Inr (spec_missing cf mms gms)"
  by (induction mms) (simp_all add: spec_missing_def found_in_eq)

lemma report_members_eq:
  "\<forall>p \<in> set ps. Login p \<noteq> None \<Longrightarrow>
   report_members cf mms ps w = (None, emit (concat (map (member_line cf mms) ps)) w)"
proof (induction ps arbitrary: w)
  case Nil
  show ?case by (simp add: emit_def)
next
  case (Cons p ps)
  then show ?case
    by (simp add: managedMember_eq member_line_def emit_def)
qed

lemma inviteMembers_dry:
  "inviteMembers org ms True w =
     (None, w\<lparr>printed := printed w @ concat (map (invite_lines True) ms)\<rparr>)"
  by (induction ms arbitrary: w) (simp_all add: invite_lines_def emit_def)

lemma inviteMembers_apply:
  "inviteMembers org ms False w =
     (None, w\<lparr>printed := printed w @ concat (map (invite_lines False) ms),
              work := work w @ map (\<lambda>m. (org, Name m)) ms\<rparr>)"
  by (induction ms arbitrary: w) (simp_all add: invite_lines_def emit_def clt_InviteMember_def)

lemma inviteMembers_eq:
  "inviteMembers org ms dry w =
     (None, w\<lparr>printed := printed w @ concat (map (invite_lines dry) ms),
              work := work w @ (if dry then [] else map (\<lambda>m. (org, Name m)) ms)\<rparr>)"
  by (cases dry) (simp_all add: inviteMembers_dry inviteMembers_apply)

lemma membersRun_served:
  assumes "Organizations_ListMembers (gh w) (OrgName org) = Served ps np"
    and "\<forall>p \<in> set ps. Login p \<noteq> None"
  shows "membersRun cf org dry w =
     (None, w\<lparr>calls := calls w @ [Provider (Call_Organizations_ListMembers (OrgName org))],
              printed := printed w @ [Println, PrintHeader ''Members'', Println]
                 @ concat (map (member_line cf (People org)) ps)
                 @ concat (map (invite_lines dry) (spec_missing cf (People org) ps)),
              work := work w @ (if dry then [] else map (\<lambda>m. (OrgName org, Name m)) (spec_missing cf (People org) ps))\<rparr>)"
  using assms
  by (simp add: membersRun_def clt_GetMembers_def GetMembers_def Let_def emit_def logged_def slice_of_def
      report_members_eq missingMembers_eq inviteMembers_eq)

text \<open>
  The lemma above is the membership diff as the run computes it: for a served member list
  whose members all have a login, each unmanaged remote member gets a warning and nothing
  else, each member on both sides an informational line, and the missing manifest
  members, found by comparing \<open>Username\<close> with the logins, are handed to
  \<open>inviteMembers\<close> in manifest order. The only call is the member listing.
\<close>

text \<open>
  C8 (membership diff) at a failing input: the manifest has alice and bob (display names
  Alice A and Bob B), the provider has bob and carol, the run is an apply run. Carol is
  reported as unmanaged and bob is left alone, but the invitation for alice is put on the
  work list under her display name: \<open>inviteMembers\<close> passes \<open>Name\<close> where
  \<open>InviteMember\<close> takes a login. The queued job looks up the user \<open>Alice A\<close>, gets
  not-found and creates no invitation; with the login \<open>alice\<close> the same job invites her.
\<close>

theorem invitation_under_display_name:
  "membersRun ascii_fold org_c8 False (world_of gh_c8) =
     (None, (world_of gh_c8)
        \<lparr>calls := [Provider (Call_Organizations_ListMembers ''acme'')],
         printed := [Println, PrintHeader ''Members'', Println,
                     PrintInfo ''bob exists in github'', Println,
                     PrintWarn ''carol exists in github but not in manifest'', Println,
                     PrintAdd ''invite Alice A'', Println, PrintAdd ''invited Alice A'', Println],
         work := [(''acme'', ''Alice A'')]\<rparr>)
   \<and> invite_job gh_c8 ''acme'' ''Alice A'' = (Some ErrUserNotFound, [Call_Users_Get ''Alice A''], [])
   \<and> invite_job gh_c8 ''acme'' ''alice'' =
       (None, [Call_Users_Get ''alice'', Call_Organizations_CreateOrgInvitation ''acme'' (Some 7)],
        [PrintSuccess ''invited alice'', Println])"
proof -
  have a: "Organizations_ListMembers (gh (world_of gh_c8)) (OrgName org_c8) = Served [user_of ''bob'', user_of ''carol''] 0"
    by (simp add: world_of_def gh_c8_def)
  have b: "\<forall>p \<in> set [user_of ''bob'', user_of ''carol'']. Login p \<noteq> None"
    by (simp add: user_of_def)
  have run: "membersRun ascii_fold org_c8 False (world_of gh_c8) =
     (None, (world_of gh_c8)
        \<lparr>calls := [Provider (Call_Organizations_ListMembers ''acme'')],
         printed := [Println, PrintHeader ''Members'', Println,
                     PrintInfo ''bob exists in github'', Println,
                     PrintWarn ''carol exists in github but not in manifest'', Println,
                     PrintAdd ''invite Alice A'', Println, PrintAdd ''invited Alice A'', Println],
         work := [(''acme'', ''Alice A'')]\<rparr>)"
    using membersRun_served [OF a b, of ascii_fold False]
    by (simp add: org_c8_def world_of_def member_line_def invite_lines_def spec_missing_def spec_unmanaged_def
        user_of_def GetLogin_def EqualFold_def ascii_fold_def to_lower_def)
  have job1: "invite_job gh_c8 ''acme'' ''Alice A'' = (Some ErrUserNotFound, [Call_Users_Get ''Alice A''], [])"
    by (simp add: invite_job_def gh_c8_def closed_gh_def)
  have job2: "invite_job gh_c8 ''acme'' ''alice'' =
       (None, [Call_Users_Get ''alice'', Call_Organizations_CreateOrgInvitation ''acme'' (Some 7)],
        [PrintSuccess ''invited alice'', Println])"
    by (simp add: invite_job_def gh_c8_def closed_gh_def user_of_def)
  show ?thesis using run job1 job2 by simp
qed

subsection \<open>Paging\<close>

lemma live_take_drop: "live (take n (drop d rs)) @ live (drop (d + n) rs) = live (drop d rs)"
proof -
  have "take n (drop d rs) @ drop n (drop d rs) = drop d rs" by (rule append_take_drop_id)
  then have "live (take n (drop d rs) @ drop n (drop d rs)) = live (drop d rs)" by simp
  then show ?thesis by (simp add: live_def add.commute)
qed

lemma list_pages_step:
  assumes "listing c name orgFound \<lparr>Page = p, PerPage = 100\<rparr> = Served xs np"
  shows "list_pages c name orgFound p acc log =
     (if np = 0 then Some ((acc @ live xs, None), log @ [list_call name orgFound p])
      else list_pages c name orgFound np (acc @ live xs) (log @ [list_call name orgFound p]))"
  using assms
  by (subst list_pages.simps) (auto simp: listing_def list_call_def live_def slice_of_def Let_def)

lemma list_pages_paged:
  assumes L: "\<And>p. listing c name orgFound \<lparr>Page = p, PerPage = 100\<rparr> = paged rs \<lparr>Page = p, PerPage = 100\<rparr>"
  shows "1 \<le> p \<Longrightarrow> (p - 1) * 100 < length rs \<Longrightarrow>
     list_pages c name orgFound p acc log =
       Some ((acc @ live (drop ((p - 1) * 100) rs), None),
             log @ map (list_call name orgFound) [p ..< Suc (pages_needed (length rs))])"
proof (induction "pages_needed (length rs) - p" arbitrary: p acc log)
  case 0
  then have last: "\<not> p * 100 < length rs" and pk: "pages_needed (length rs) = p"
    by (auto simp: pages_needed_def)
  have "listing c name orgFound \<lparr>Page = p, PerPage = 100\<rparr> = Served (take 100 (drop ((p - 1) * 100) rs)) 0"
    using 0 last by (simp add: L paged_def)
  from list_pages_step [OF this] have
    "list_pages c name orgFound p acc log =
       Some ((acc @ live (take 100 (drop ((p - 1) * 100) rs)), None), log @ [list_call name orgFound p])"
    by simp
  moreover have "take 100 (drop ((p - 1) * 100) rs) = drop ((p - 1) * 100) rs"
    using last 0 by (simp add: algebra_simps)
  ultimately show ?case by (simp add: pk)
next
  case (Suc k)
  then have more: "p * 100 < length rs" and pk: "p < pages_needed (length rs)"
    by (auto simp: pages_needed_def)
  have "listing c name orgFound \<lparr>Page = p, PerPage = 100\<rparr> = Served (take 100 (drop ((p - 1) * 100) rs)) (p + 1)"
    using Suc.prems more by (simp add: L paged_def)
  from list_pages_step [OF this] have step:
    "list_pages c name orgFound p acc log =
       list_pages c name orgFound (p + 1) (acc @ live (take 100 (drop ((p - 1) * 100) rs))) (log @ [list_call name orgFound p])"
    by simp
  have k: "k = pages_needed (length rs) - (p + 1)" using Suc.hyps(2) by simp
  have "list_pages c name orgFound (p + 1) (acc @ live (take 100 (drop ((p - 1) * 100) rs))) (log @ [list_call name orgFound p])
     = Some (((acc @ live (take 100 (drop ((p - 1) * 100) rs))) @ live (drop ((p + 1 - 1) * 100) rs), None),
             (log @ [list_call name orgFound p]) @ map (list_call name orgFound) [p + 1 ..< Suc (pages_needed (length rs))])"
    using more by (intro Suc.hyps(1) [OF k]) simp_all
  moreover have "(p + 1 - 1) * 100 = (p - 1) * 100 + 100"
    using Suc.prems by (simp add: algebra_simps)
  moreover have "[p ..< Suc (pages_needed (length rs))] = p # [p + 1 ..< Suc (pages_needed (length rs))]"
    using pk by (simp add: upt_conv_Cons)
  ultimately show ?case
    using live_take_drop [of 100 "(p - 1) * 100" rs] by (simp add: step)
qed

lemma list_pages_from_zero:
  assumes L: "\<And>p. listing c name orgFound \<lparr>Page = p, PerPage = 100\<rparr> = paged rs \<lparr>Page = p, PerPage = 100\<rparr>"
  shows "list_pages c name orgFound 0 [] log =
       Some ((live rs, None),
             log @ map (list_call name orgFound) (0 # [2 ..< Suc (pages_needed (length rs))]))"
proof (cases "100 < length rs")
  case False
  then have "listing c name orgFound \<lparr>Page = 0, PerPage = 100\<rparr> = Served rs 0"
    by (simp add: L paged_def)
  from list_pages_step [OF this] show ?thesis
    using False by (simp add: pages_needed_def)
next
  case True
  then have "listing c name orgFound \<lparr>Page = 0, PerPage = 100\<rparr> = Served (take 100 rs) 2"
    by (simp add: L paged_def)
  from list_pages_step [OF this] have
    "list_pages c name orgFound 0 [] log = list_pages c name orgFound 2 (live (take 100 rs)) (log @ [list_call name orgFound 0])"
    by simp
  also have "\<dots> = Some ((live (take 100 rs) @ live (drop ((2 - 1) * 100) rs), None),
             (log @ [list_call name orgFound 0]) @ map (list_call name orgFound) [2 ..< Suc (pages_needed (length rs))])"
    using True by (intro list_pages_paged [OF L]) simp_all
  finally show ?thesis
    using live_take_drop [of 100 0 rs] by simp
qed

text \<open>
  C6 (pagination with archived filtering). Against an account whose listing \<open>rs\<close> is
  served in pages of 100, \<open>GetRepos\<close> returns: the no-repositories error after the
  account lookup alone when the public plus private count is below 1; otherwise the
  repositories of \<open>rs\<close> that are not archived, in order, after one listing call for each
  of the pages 0, 2, 3, ... up to \<open>ceil(length rs / 100)\<close>. For a non-empty listing
  that is \<open>ceil(length rs / 100)\<close> listing calls. The same holds for a user account,
  after the failed organization lookup.
\<close>

theorem GetRepos_paging:
  "(Organizations_Get c name = Served og np
      \<and> (\<forall>p. Repositories_ListByOrg c (name, \<lparr>Page = p, PerPage = 100\<rparr>) = paged rs \<lparr>Page = p, PerPage = 100\<rparr>)
    \<longrightarrow> GetRepos c name =
         (if org_count (Some og) <s 1 then Some (([], Some ErrNoReposFound), [Call_Organizations_Get name])
          else Some ((live rs, None),
                     Call_Organizations_Get name # map (list_call name True) (pages_asked (length rs)))))
   \<and> (Organizations_Get c name = HttpError 404 \<and> Users_Get c name = Served u np'
      \<and> (\<forall>p. Repositories_List c (name, \<lparr>Page = p, PerPage = 100\<rparr>) = paged rs \<lparr>Page = p, PerPage = 100\<rparr>)
    \<longrightarrow> GetRepos c name =
         (if user_count (Some u) <s 1
          then Some (([], Some ErrNoReposFound), [Call_Organizations_Get name, Call_Users_Get name])
          else Some ((live rs, None),
                     Call_Organizations_Get name # Call_Users_Get name
                       # map (list_call name False) (pages_asked (length rs)))))
   \<and> (rs \<noteq> [] \<longrightarrow> length (pages_asked (length rs)) = pages_needed (length rs))
   \<and> pages_needed (length rs) * 100 < length rs + 100 \<and> length rs \<le> pages_needed (length rs) * 100"
proof (intro conjI impI)
  assume a: "Organizations_Get c name = Served og np
      \<and> (\<forall>p. Repositories_ListByOrg c (name, \<lparr>Page = p, PerPage = 100\<rparr>) = paged rs \<lparr>Page = p, PerPage = 100\<rparr>)"
  then have L: "\<And>p. listing c name True \<lparr>Page = p, PerPage = 100\<rparr> = paged rs \<lparr>Page = p, PerPage = 100\<rparr>"
    by (simp add: listing_def)
  show "GetRepos c name =
         (if org_count (Some og) <s 1 then Some (([], Some ErrNoReposFound), [Call_Organizations_Get name])
          else Some ((live rs, None),
                     Call_Organizations_Get name # map (list_call name True) (pages_asked (length rs))))"
    using a by (simp add: GetRepos_def list_pages_from_zero [OF L] pages_asked_def)
next
  assume a: "Organizations_Get c name = HttpError 404 \<and> Users_Get c name = Served u np'
      \<and> (\<forall>p. Repositories_List c (name, \<lparr>Page = p, PerPage = 100\<rparr>) = paged rs \<lparr>Page = p, PerPage = 100\<rparr>)"
  then have L: "\<And>p. listing c name False \<lparr>Page = p, PerPage = 100\<rparr> = paged rs \<lparr>Page = p, PerPage = 100\<rparr>"
    by (simp add: listing_def)
  show "GetRepos c name =
         (if user_count (Some u) <s 1
          then Some (([], Some ErrNoReposFound), [Call_Organizations_Get name, Call_Users_Get name])
          else Some ((live rs, None),
                     Call_Organizations_Get name # Call_Users_Get name
                       # map (list_call name False) (pages_asked (length rs))))"
    using a by (simp add: GetRepos_def list_pages_from_zero [OF L] pages_asked_def)
next
  assume "rs \<noteq> []"
  then have "0 < length rs" by simp
  then have "1 \<le> (length rs + 99) div 100" by arith
  then show "length (pages_asked (length rs)) = pages_needed (length rs)"
    by (auto simp: pages_asked_def pages_needed_def)
next
  show "pages_needed (length rs) * 100 < length rs + 100" by (simp add: pages_needed_def)
  show "length rs \<le> pages_needed (length rs) * 100" by (simp add: pages_needed_def)
qed

theorem GetRepos_paging_witness:
  "GetRepos (account_gh (replicate 250 (plain_gh_repo ''r'') @ replicate 30 (archived_repo ''old''))) ''acme'' =
     Some ((replicate 250 (plain_gh_repo ''r''), None),
           [Call_Organizations_Get ''acme'',
            Call_Repositories_ListByOrg ''acme'' \<lparr>Page = 0, PerPage = 100\<rparr>,
            Call_Repositories_ListByOrg ''acme'' \<lparr>Page = 2, PerPage = 100\<rparr>,
            Call_Repositories_ListByOrg ''acme'' \<lparr>Page = 3, PerPage = 100\<rparr>])
   \<and> GetRepos (account_gh []) ''acme'' = Some (([], Some ErrNoReposFound), [Call_Organizations_Get ''acme''])
   \<and> GetRepos (user_account_gh (archived_repo ''old'' # replicate 120 (plain_gh_repo ''r''))) ''alice'' =
     Some ((replicate 120 (plain_gh_repo ''r''), None),
           [Call_Organizations_Get ''alice'', Call_Users_Get ''alice'',
            Call_Repositories_List ''alice'' \<lparr>Page = 0, PerPage = 100\<rparr>,
            Call_Repositories_List ''alice'' \<lparr>Page = 2, PerPage = 100\<rparr>])"
proof -
  let ?us = "archived_repo ''old'' # replicate 120 (plain_gh_repo ''r'')"
  let ?u = "(user_of ''alice'')\<lparr>user_PublicRepos := Some (of_nat (length ?us))\<rparr>"
  have ua: "Organizations_Get (user_account_gh ?us) ''alice'' = HttpError 404
      \<and> Users_Get (user_account_gh ?us) ''alice'' = Served ?u 0
      \<and> (\<forall>p. Repositories_List (user_account_gh ?us) (''alice'', \<lparr>Page = p, PerPage = 100\<rparr>) = paged ?us \<lparr>Page = p, PerPage = 100\<rparr>)"
    by (simp add: user_account_gh_def closed_gh_def)
  have uc: "\<not> user_count (Some ?u) <s 1"
    by (simp add: user_count_def word_or_zero_def user_of_def word_sless_alt)
  have ud: "live ?us = replicate 120 (plain_gh_repo ''r'')"
    by (simp add: live_def archived_repo_def plain_gh_repo_def GetArchived_def)
  have ue: "pages_asked 121 = [0, 2]"
    by (simp add: pages_asked_def pages_needed_def upt_rec)
  have user: "GetRepos (user_account_gh ?us) ''alice'' =
     Some ((replicate 120 (plain_gh_repo ''r''), None),
           [Call_Organizations_Get ''alice'', Call_Users_Get ''alice'',
            Call_Repositories_List ''alice'' \<lparr>Page = 0, PerPage = 100\<rparr>,
            Call_Repositories_List ''alice'' \<lparr>Page = 2, PerPage = 100\<rparr>])"
    using GetRepos_paging [where c = "user_account_gh ?us" and name = "''alice''" and u = ?u and np' = 0 and rs = ?us] ua uc
    by (simp add: ud ue list_call_def)
  let ?rs = "replicate 250 (plain_gh_repo ''r'') @ replicate 30 (archived_repo ''old'')"
  let ?og = "\<lambda>rs :: gh_repository list. \<lparr>org_PublicRepos = Some (of_nat (length rs)), org_TotalPrivateRepos = Some 0\<rparr>"
  have a: "Organizations_Get (account_gh ?rs) ''acme'' = Served (?og ?rs) 0
      \<and> (\<forall>p. Repositories_ListByOrg (account_gh ?rs) (''acme'', \<lparr>Page = p, PerPage = 100\<rparr>) = paged ?rs \<lparr>Page = p, PerPage = 100\<rparr>)"
    by (simp add: account_gh_def)
  have b: "Organizations_Get (account_gh []) ''acme'' = Served (?og []) 0
      \<and> (\<forall>p. Repositories_ListByOrg (account_gh []) (''acme'', \<lparr>Page = p, PerPage = 100\<rparr>) = paged [] \<lparr>Page = p, PerPage = 100\<rparr>)"
    by (simp add: account_gh_def)
  have c: "\<not> org_count (Some (?og ?rs)) <s 1" "org_count (Some (?og [])) <s 1"
    by (simp_all add: org_count_def word_or_zero_def word_sless_alt)
  have d: "live ?rs = replicate 250 (plain_gh_repo ''r'')"
    by (simp add: live_def archived_repo_def plain_gh_repo_def GetArchived_def)
  have e: "pages_asked 280 = [0, 2, 3]"
    by (simp add: pages_asked_def pages_needed_def upt_rec)
  show ?thesis
    using GetRepos_paging [of "account_gh ?rs" "''acme''" "?og ?rs" 0 ?rs]
      GetRepos_paging [of "account_gh []" "''acme''" "?og []" 0 "[]"] a b c user
    by (simp add: d e list_call_def)
qed

subsection \<open>Rate limiting\<close>

text \<open>
  What each Gateway operation among the sources does when the provider answers its call
  with a rate-limit signal: it returns after that one provider call, with an error, and
  makes no other call; the repository loop, the branch loop and the member run return
  that error at once. The error is the rate-limit error, with one exception: the account
  lookup of \<open>GetRepos\<close> tests for it only when there is no response, and returns the
  no-repositories error when the signal comes with one.
\<close>

lemma rate_limit_replies:
  "(Organizations_Get c n = RateLimit b \<longrightarrow>
      GetOrg c n = ((None, Some (Raw RateLimitError)), [Call_Organizations_Get n])
      \<and> OrgExists c n = ((False, Some (Raw RateLimitError)), [Call_Organizations_Get n])
      \<and> GetRepos c n = Some (([], Some (if b then ErrNoReposFound else HitRateLimit)), [Call_Organizations_Get n]))
   \<and> (Organizations_ListMembers c n = RateLimit b \<longrightarrow>
      GetMembers c n = (([], Some (Raw RateLimitError)), [Call_Organizations_ListMembers n]))
   \<and> (Users_Get c n = RateLimit b \<longrightarrow>
      invite_job c org n = (Some (Raw RateLimitError), [Call_Users_Get n], []))
   \<and> (Users_Get c n = Served u np \<and> Organizations_CreateOrgInvitation c (org, ID u) = RateLimit b \<longrightarrow>
      invite_job c org n =
        (Some (Raw RateLimitError), [Call_Users_Get n, Call_Organizations_CreateOrgInvitation org (ID u)], []))
   \<and> (Organizations_Get c n = HttpError 404 \<and> Users_Get c n = RateLimit b \<longrightarrow>
      GetRepos c n = Some (([], Some HitRateLimit), [Call_Organizations_Get n, Call_Users_Get n]))
   \<and> (listing c n orgFound \<lparr>Page = p, PerPage = 100\<rparr> = RateLimit b \<longrightarrow>
      list_pages c n orgFound p acc log = Some (([], Some HitRateLimit), log @ [list_call n orgFound p]))
   \<and> (Repositories_Get c (org, n) = RateLimit b \<longrightarrow>
      GetRepo c org n = ((None, Some HitRateLimit), [Call_Repositories_Get org n]))
   \<and> (Repositories_ListAllTopics c (org, n) = RateLimit b \<longrightarrow>
      GetRepoTopics c org n = (([], Some HitRateLimit), [Call_Repositories_ListAllTopics org n]))
   \<and> (Repositories_ListBranches c (org, n) = RateLimit b \<longrightarrow>
      GetBranches c org n = (([], Some HitRateLimit), [Call_Repositories_ListBranches org n]))
   \<and> (Repositories_GetBranchProtection c (org, n, br) = RateLimit b \<longrightarrow>
      GetBranchProtection c org n br = ((None, Some HitRateLimit), [Call_Repositories_GetBranchProtection org n br])
      \<and> IsBranchProtected c org n br = ((False, Some HitRateLimit), [Call_Repositories_GetBranchProtection org n br]))
   \<and> (Repositories_Get (gh w) (org, RepoName r) = RateLimit b \<longrightarrow>
      ensure_each cf org (r # rs) dry w =
        (Some HitRateLimit, r # rs,
         logged [Provider (Call_Repositories_Get org (RepoName r))] (emit [Println, PrintHeader (RepoName r), Println] w)))
   \<and> (Repositories_GetBranchProtection (gh w) (org, RepoName r, BranchName pb) = RateLimit b \<longrightarrow>
      protect_each org r (pb # pbs) dry w =
        (Some HitRateLimit, logged [Provider (Call_Repositories_GetBranchProtection org (RepoName r) (BranchName pb))] w))
   \<and> (Organizations_ListMembers (gh w) (OrgName og) = RateLimit b \<longrightarrow>
      membersRun cf og dry w =
        (Some (Raw RateLimitError),
         logged [Provider (Call_Organizations_ListMembers (OrgName og))] (emit [Println, PrintHeader ''Members'', Println] w)))"
proof (intro conjI impI)
  assume "Organizations_Get c n = RateLimit b"
  then show "GetOrg c n = ((None, Some (Raw RateLimitError)), [Call_Organizations_Get n])"
    and "OrgExists c n = ((False, Some (Raw RateLimitError)), [Call_Organizations_Get n])"
    and "GetRepos c n = Some (([], Some (if b then ErrNoReposFound else HitRateLimit)), [Call_Organizations_Get n])"
    by (simp_all add: GetOrg_def OrgExists_def GetRepos_def org_count_def word_sless_alt)
next
  assume "Organizations_ListMembers c n = RateLimit b"
  then show "GetMembers c n = (([], Some (Raw RateLimitError)), [Call_Organizations_ListMembers n])"
    by (simp add: GetMembers_def)
next
  assume "Users_Get c n = RateLimit b"
  then show "invite_job c org n = (Some (Raw RateLimitError), [Call_Users_Get n], [])"
    by (simp add: invite_job_def)
next
  assume "Users_Get c n = Served u np \<and> Organizations_CreateOrgInvitation c (org, ID u) = RateLimit b"
  then show "invite_job c org n =
        (Some (Raw RateLimitError), [Call_Users_Get n, Call_Organizations_CreateOrgInvitation org (ID u)], [])"
    by (simp add: invite_job_def)
next
  assume "Organizations_Get c n = HttpError 404 \<and> Users_Get c n = RateLimit b"
  then show "GetRepos c n = Some (([], Some HitRateLimit), [Call_Organizations_Get n, Call_Users_Get n])"
    by (simp add: GetRepos_def)
next
  assume "listing c n orgFound \<lparr>Page = p, PerPage = 100\<rparr> = RateLimit b"
  then show "list_pages c n orgFound p acc log = Some (([], Some HitRateLimit), log @ [list_call n orgFound p])"
    by (subst list_pages.simps) (auto simp: listing_def list_call_def Let_def)
next
  assume "Repositories_Get c (org, n) = RateLimit b"
  then show "GetRepo c org n = ((None, Some HitRateLimit), [Call_Repositories_Get org n])"
    by (simp add: GetRepo_def)
next
  assume "Repositories_ListAllTopics c (org, n) = RateLimit b"
  then show "GetRepoTopics c org n = (([], Some HitRateLimit), [Call_Repositories_ListAllTopics org n])"
    by (simp add: GetRepoTopics_def)
next
  assume "Repositories_ListBranches c (org, n) = RateLimit b"
  then show "GetBranches c org n = (([], Some HitRateLimit), [Call_Repositories_ListBranches org n])"
    by (simp add: GetBranches_def)
next
  assume "Repositories_GetBranchProtection c (org, n, br) = RateLimit b"
  then show "GetBranchProtection c org n br = ((None, Some HitRateLimit), [Call_Repositories_GetBranchProtection org n br])"
    and "IsBranchProtected c org n br = ((False, Some HitRateLimit), [Call_Repositories_GetBranchProtection org n br])"
    by (simp_all add: GetBranchProtection_def IsBranchProtected_def)
next
  assume "Repositories_Get (gh w) (org, RepoName r) = RateLimit b"
  then show "ensure_each cf org (r # rs) dry w =
        (Some HitRateLimit, r # rs,
         logged [Provider (Call_Repositories_Get org (RepoName r))] (emit [Println, PrintHeader (RepoName r), Println] w))"
    by (simp add: ensureRepo_def clt_GetRepo_def GetRepo_def emit_def logged_def)
next
  assume "Repositories_GetBranchProtection (gh w) (org, RepoName r, BranchName pb) = RateLimit b"
  then show "protect_each org r (pb # pbs) dry w =
        (Some HitRateLimit, logged [Provider (Call_Repositories_GetBranchProtection org (RepoName r) (BranchName pb))] w)"
    by (simp add: clt_GetBranchProtection_def GetBranchProtection_def logged_def)
next
  assume "Organizations_ListMembers (gh w) (OrgName og) = RateLimit b"
  then show "membersRun cf og dry w =
        (Some (Raw RateLimitError),
         logged [Provider (Call_Organizations_ListMembers (OrgName og))] (emit [Println, PrintHeader ''Members'', Println] w))"
    by (simp add: membersRun_def clt_GetMembers_def GetMembers_def emit_def logged_def)
qed

text \<open>
  C7 (rate-limit fatality) at a failing input: the provider answers the organization
  lookup of \<open>GetRepos\<close> with a rate-limit error and its 403 response, as the provider
  library does for every rate-limit error. \<open>GetRepos\<close> returns the no-repositories
  error, not the rate-limit error: the test for the rate limit is under
  \<open>resp == nil && err != nil\<close>, the status is not 404, and the count read from the
  nil organization is 0. The user lookup of the same function and \<open>GetRepo\<close> test
  \<open>err != nil\<close> alone and return the rate-limit error.
\<close>

theorem rate_limit_reported_as_no_repos:
  "Organizations_Get limited_gh ''acme'' = RateLimit True
   \<and> GetRepos limited_gh ''acme'' = Some (([], Some ErrNoReposFound), [Call_Organizations_Get ''acme''])
   \<and> GetRepos (limited_gh\<lparr>Organizations_Get := (\<lambda>_. HttpError 404)\<rparr>) ''alice''
       = Some (([], Some HitRateLimit), [Call_Organizations_Get ''alice'', Call_Users_Get ''alice''])
   \<and> GetRepo limited_gh ''acme'' ''r'' = ((None, Some HitRateLimit), [Call_Repositories_Get ''acme'' ''r''])"
  by (simp add: GetRepos_def GetRepo_def limited_gh_def org_count_def word_sless_alt)

subsection \<open>A run against a remote in sync\<close>





















subsection \<open>Dry run and apply\<close>

lemma retensed_refl: "retensed d d"
  by (simp add: retensed_def)

lemma retensed_verb: "(p, q) \<in> set tenses \<Longrightarrow> retensed (p @ rest) (q @ rest)"
  unfolding retensed_def list_ex_iff by (rule disjI2, rule bexI [of _ "(p, q)"]) simp_all

lemma same_but_tense_refl: "same_but_tense l l"
  by (cases l) (simp_all add: retensed_refl)

lemma same_lines_refl: "list_all2 same_but_tense ls ls"
  by (simp add: list_all2_refl same_but_tense_refl)

lemma edits_report_tense:
  "(p, q) \<in> set tenses \<Longrightarrow> list_all2 same_but_tense (edits_report p e) (edits_report q e)"
  by (auto simp: edits_report_def retensed_verb intro!: list_all2_appendI split: option.splits)

lemma create_report_tense:
  "(p, q) \<in> set tenses \<Longrightarrow> list_all2 same_but_tense (create_report p e) (create_report q e)"
  by (auto simp: create_report_def retensed_verb intro!: list_all2_appendI split: option.splits)

lemma protection_report_tense:
  "(p, q) \<in> set tenses \<Longrightarrow> list_all2 same_but_tense (protection_report p b st) (protection_report q b st)"
  by (auto simp: protection_report_def retensed_verb intro!: list_all2_appendI split: option.splits)

lemma in_tenses:
  "(''updating'', ''updated'') \<in> set tenses" "(''setting'', ''set'') \<in> set tenses"
  "(''creating'', ''created'') \<in> set tenses"
  by (simp_all add: tenses_def)

lemma labels_tense:
  "same_but_tense (PrintAdd (''updating labels to ['' @ x)) (PrintAdd (''updated labels to ['' @ x))"
  using retensed_verb [OF in_tenses(1), of "'' labels to ['' @ x"] by simp

lemma signed_tense:
  "same_but_tense (PrintAdd (''updating require signed commits to '' @ x)) (PrintAdd (''updated require signed commits to '' @ x))"
  using retensed_verb [OF in_tenses(1), of "'' require signed commits to '' @ x"] by simp

lemma creating_tense:
  "same_but_tense (PrintWarn (''creating repo '' @ x)) (PrintWarn (''created repo '' @ x))"
  using retensed_verb [OF in_tenses(3), of "'' repo '' @ x"] by simp


lemma labels_lines:
  "list_all2 same_but_tense [PrintAdd (''updating labels to ['' @ x), Println] [PrintAdd (''updated labels to ['' @ x), Println]"
  using labels_tense [of x] by simp

lemma signed_lines:
  "list_all2 same_but_tense [PrintAdd (''updating require signed commits to '' @ x), Println]
     [PrintAdd (''updated require signed commits to '' @ x), Println]"
  using signed_tense [of x] by simp

lemma creating_lines:
  "list_all2 same_but_tense ends ends' \<Longrightarrow>
   list_all2 same_but_tense ([PrintWarn (''creating repo '' @ x), Println] @ ends)
     ([PrintWarn (''created repo '' @ x), Println] @ ends')"
  using creating_tense [of x] by simp

lemma sim_emit:
  "sim RK PK wd wa \<Longrightarrow> list_all2 same_but_tense ls ls' \<Longrightarrow> sim RK PK (emit ls wd) (emit ls' wa)"
  by (simp add: sim_def emit_def list_all2_appendI)

lemma sim_emit_same: "sim RK PK wd wa \<Longrightarrow> sim RK PK (emit ls wd) (emit ls wa)"
  by (rule sim_emit) (simp_all add: same_lines_refl)

lemma sim_logged: "sim RK PK wd wa \<Longrightarrow> sim RK PK (logged cs wd) (logged cs' wa)"
  by (simp add: sim_def logged_def)

lemma sim_logged_right: "sim RK PK wd wa \<Longrightarrow> sim RK PK wd (logged cs' wa)"
  by (simp add: sim_def logged_def)

lemma sim_set_repo: "sim RK PK wd wa \<Longrightarrow> k \<notin> RK \<Longrightarrow> sim RK PK wd (set_repo k v wa)"
  by (auto simp: sim_def set_repo_def)

lemma sim_set_protection: "sim RK PK wd wa \<Longrightarrow> k \<notin> PK \<Longrightarrow> sim RK PK wd (set_protection k v wa)"
  by (auto simp: sim_def set_protection_def)

lemma sim_mono: "sim RK PK wd wa \<Longrightarrow> RK' \<subseteq> RK \<Longrightarrow> PK' \<subseteq> PK \<Longrightarrow> sim RK' PK' wd wa"
  by (auto simp: sim_def)

lemma sim_write_error: "sim RK PK wd wa \<Longrightarrow> write_error wa c = None"
  by (simp add: sim_def)

lemma UpdateRepo_sim:
  assumes "sim RK PK wd wa" and "(org, name) \<notin> RK"
  shows "fst (clt_UpdateRepo org name e wa) = None \<and> sim RK PK wd (snd (clt_UpdateRepo org name e wa))"
  using assms
  by (auto simp: clt_UpdateRepo_def Let_def sim_write_error sim_logged_right sim_set_repo split: reply.splits)

lemma CreateRepo_sim:
  assumes "sim RK PK wd wa" and "gh_Name st = Some name" and "(org, name) \<notin> RK"
  shows "fst (clt_CreateRepo org st wa) = None \<and> sim RK PK wd (snd (clt_CreateRepo org st wa))"
  using assms
  by (auto simp: clt_CreateRepo_def Let_def sim_write_error sim_logged_right sim_set_repo)

lemma SetRepoTopics_sim:
  assumes "sim RK PK wd wa" and "(org, name) \<notin> RK"
  shows "fst (clt_SetRepoTopics org name ts wa) = None \<and> sim RK PK wd (snd (clt_SetRepoTopics org name ts wa))"
  using assms
  by (auto simp: clt_SetRepoTopics_def Let_def sim_write_error sim_logged_right sim_set_repo split: reply.splits)

lemma RequireSignedCommits_sim:
  assumes "sim RK PK wd wa" and "(org, name, b) \<notin> PK"
  shows "fst (clt_RequireSignedCommits org name b wa) = None
     \<and> sim RK PK wd (snd (clt_RequireSignedCommits org name b wa))"
  using assms
  by (auto simp: clt_RequireSignedCommits_def Let_def sim_write_error sim_logged_right sim_set_protection
      split: reply.splits)

lemma ProtectBranch_sim:
  assumes "sim RK PK wd wa" and "(org, name, b) \<notin> PK"
    and "Repositories_GetBranchProtection (gh wa) (org, name, b) = Served p np"
  shows "fst (clt_ProtectBranch org name b st wa) = None
     \<and> sim RK PK wd (snd (clt_ProtectBranch org name b st wa))
     \<and> (\<exists>p'. Repositories_GetBranchProtection (gh (snd (clt_ProtectBranch org name b st wa))) (org, name, b) = Served p' 0
              \<and> RequiredSignatures p' = RequiredSignatures p)"
proof -
  have we: "write_error wa (ProtectBranch_call org name b st) = None"
    using assms(1) by (rule sim_write_error)
  let ?v = "Served \<lparr>RequiredPullRequestReviews_on = RequiredPullRequestReviews st,
                      RequiredStatusChecks_on = RequiredStatusChecks st,
                      RequiredSignatures = RequiredSignatures p\<rparr> 0"
  have res: "clt_ProtectBranch org name b st wa =
      (None, set_protection (org, name, b) ?v (logged [ProtectBranch_call org name b st] wa))"
    using we assms(3) by (simp add: clt_ProtectBranch_def Let_def)
  have "sim RK PK wd (set_protection (org, name, b) ?v (logged [ProtectBranch_call org name b st] wa))"
    using assms(1,2) by (intro sim_set_protection sim_logged_right)
  then show ?thesis
    by (simp add: res set_protection_def)
qed

lemma ensureSignedCommits_dry_gh: "gh (snd (ensureSignedCommits org repo b True w)) = gh w"
  by (simp add: ensureSignedCommits_def clt_GetBranchProtection_def Let_def emit_def logged_def
      split: option.splits prod.splits)

lemma ensureSignedCommits_sim:
  assumes s: "sim RK PK wd wa" and k: "(org, RepoName repo, BranchName b) \<notin> PK"
    and d: "Repositories_GetBranchProtection (gh wd) (org, RepoName repo, BranchName b) = Served p np"
    and a: "Repositories_GetBranchProtection (gh wa) (org, RepoName repo, BranchName b) = Served p' np'"
    and e: "RequiredSignatures p' = RequiredSignatures p"
  shows "fst (ensureSignedCommits org repo b True wd) = fst (ensureSignedCommits org repo b False wa)
     \<and> sim RK PK (snd (ensureSignedCommits org repo b True wd)) (snd (ensureSignedCommits org repo b False wa))"
proof (cases "SignedCommits (Protection b)")
  case None
  then show ?thesis using s by (simp add: ensureSignedCommits_def)
next
  case (Some sc)
  let ?c = "[Provider (Call_Repositories_GetBranchProtection org (RepoName repo) (BranchName b))]"
  have gd: "clt_GetBranchProtection org (RepoName repo) (BranchName b) wd = ((Some p, None), logged ?c wd)"
    using d by (simp add: clt_GetBranchProtection_def GetBranchProtection_def)
  have ga: "clt_GetBranchProtection org (RepoName repo) (BranchName b) wa = ((Some p', None), logged ?c wa)"
    using a by (simp add: clt_GetBranchProtection_def GetBranchProtection_def)
  have en: "GetEnabled (Some p') = GetEnabled (Some p)" using e by (simp add: GetEnabled_def)
  have s1: "sim RK PK (logged ?c wd) (logged ?c wa)" using s by (rule sim_logged)
  show ?thesis
  proof (cases "GetEnabled (Some p) = sc")
    case True
    then show ?thesis
      using Some gd ga en s1 by (simp add: ensureSignedCommits_def sim_emit_same)
  next
    case False
    obtain e2 wa2 where rq:
      "clt_RequireSignedCommits org (RepoName repo) (BranchName b) (logged ?c wa) = (e2, wa2)"
      by (cases "clt_RequireSignedCommits org (RepoName repo) (BranchName b) (logged ?c wa)")
    have r: "e2 = None" and s2: "sim RK PK (logged ?c wd) wa2"
      using RequireSignedCommits_sim [OF s1 k] rq by simp_all
    have da: "ensureSignedCommits org repo b True wd =
        (None, emit [PrintAdd (''updating require signed commits to '' @ [CHR 0x27] @ fmt_bool sc @ [CHR 0x27]), Println] (logged ?c wd))"
      using Some gd False by (simp add: ensureSignedCommits_def)
    have aa: "ensureSignedCommits org repo b False wa =
        (None, emit [PrintAdd (''updated require signed commits to '' @ [CHR 0x27] @ fmt_bool sc @ [CHR 0x27]), Println] wa2)"
      using Some ga False en rq r by (simp add: ensureSignedCommits_def)
    have "sim RK PK
        (emit [PrintAdd (''updating require signed commits to '' @ [CHR 0x27] @ fmt_bool sc @ [CHR 0x27]), Println] (logged ?c wd))
        (emit [PrintAdd (''updated require signed commits to '' @ [CHR 0x27] @ fmt_bool sc @ [CHR 0x27]), Println] wa2)"
      using s2 signed_lines by (rule sim_emit)
    then show ?thesis by (simp add: da aa)
  qed
qed


lemma gh_emit: "gh (emit ls w) = gh w"
  by (simp add: emit_def)

lemma gh_logged: "gh (logged cs w) = gh w"
  by (simp add: logged_def)

lemma UpdateBranchProtection_dry_gh: "gh (snd (UpdateBranchProtection org repo b True w)) = gh w"
  by (simp add: UpdateBranchProtection_def Let_def ensureSignedCommits_dry_gh gh_emit)

lemma createProtectedBranch_dry_gh: "gh (snd (createProtectedBranch org repo b True w)) = gh w"
  by (simp add: createProtectedBranch_def Let_def ensureSignedCommits_dry_gh gh_emit)

lemma clt_GetBranchProtection_gh: "gh (snd (clt_GetBranchProtection org name b w)) = gh w"
  by (simp add: clt_GetBranchProtection_def gh_logged split: prod.splits)

lemma protect_each_dry_gh: "gh (snd (protect_each org repo pbs True w)) = gh w"
proof (induction pbs arbitrary: w)
  case Nil
  show ?case by simp
next
  case (Cons pb pbs)
  obtain ghpb err w1 where g: "clt_GetBranchProtection org (RepoName repo) (BranchName pb) w = ((ghpb, err), w1)"
    by (cases "clt_GetBranchProtection org (RepoName repo) (BranchName pb) w") auto
  have g1: "gh w1 = gh w" using clt_GetBranchProtection_gh [of org "RepoName repo" "BranchName pb" w] g by simp
  obtain e2 w2 where c: "createProtectedBranch org repo pb True w1 = (e2, w2)"
    by (cases "createProtectedBranch org repo pb True w1")
  have c1: "gh w2 = gh w" using createProtectedBranch_dry_gh [of org repo pb w1] c g1 by simp
  obtain e3 w3 where u: "UpdateBranchProtection org repo pb True w1 = (e3, w3)"
    by (cases "UpdateBranchProtection org repo pb True w1")
  have u1: "gh w3 = gh w" using UpdateBranchProtection_dry_gh [of org repo pb w1] u g1 by simp
  show ?case
    using g g1 c c1 u u1 by (simp add: Cons.IH split: option.splits)
qed

lemma UpdateBranchProtection_sim:
  assumes s: "sim RK PK wd wa" and k: "(org, RepoName repo, BranchName b) \<notin> PK"
    and d: "Repositories_GetBranchProtection (gh wd) (org, RepoName repo, BranchName b) = Served p np"
    and a: "Repositories_GetBranchProtection (gh wa) (org, RepoName repo, BranchName b) = Served p np"
  shows "fst (UpdateBranchProtection org repo b True wd) = fst (UpdateBranchProtection org repo b False wa)
     \<and> sim RK PK (snd (UpdateBranchProtection org repo b True wd)) (snd (UpdateBranchProtection org repo b False wa))"
proof -
  let ?info = "[PrintInfo (''protected branch '' @ [CHR 0x27] @ BranchName b @ [CHR 0x27] @ '' for repo '' @ RepoName repo), Println]"
  let ?st = "protection_state b"
  have s0: "sim RK PK (emit ?info wd) (emit ?info wa)" using s by (rule sim_emit_same)
  have a0: "Repositories_GetBranchProtection (gh (emit ?info wa)) (org, RepoName repo, BranchName b) = Served p np"
    using a by (simp add: gh_emit)
  obtain e1 w1 where pb: "clt_ProtectBranch org (RepoName repo) (BranchName b) ?st (emit ?info wa) = (e1, w1)"
    by (cases "clt_ProtectBranch org (RepoName repo) (BranchName b) ?st (emit ?info wa)")
  from ProtectBranch_sim [OF s0 k a0, of ?st] pb obtain p' where
    e1: "e1 = None" and s1: "sim RK PK (emit ?info wd) w1"
    and a1: "Repositories_GetBranchProtection (gh w1) (org, RepoName repo, BranchName b) = Served p' 0"
    and sg: "RequiredSignatures p' = RequiredSignatures p"
    by auto
  let ?wd2 = "emit (protection_report ''updating'' b ?st) (emit ?info wd)"
  let ?wa2 = "emit (protection_report ''updated'' b ?st) w1"
  have s2: "sim RK PK ?wd2 ?wa2"
    using s1 by (rule sim_emit) (rule protection_report_tense [OF in_tenses(1)])
  have d2: "Repositories_GetBranchProtection (gh ?wd2) (org, RepoName repo, BranchName b) = Served p np"
    using d by (simp add: gh_emit)
  have a2: "Repositories_GetBranchProtection (gh ?wa2) (org, RepoName repo, BranchName b) = Served p' 0"
    using a1 by (simp add: gh_emit)
  have dr: "UpdateBranchProtection org repo b True wd = ensureSignedCommits org repo b True ?wd2"
    by (simp add: UpdateBranchProtection_def Let_def)
  have ar: "UpdateBranchProtection org repo b False wa = ensureSignedCommits org repo b False ?wa2"
    using pb e1 by (simp add: UpdateBranchProtection_def Let_def)
  show ?thesis
    unfolding dr ar using s2 k d2 a2 sg by (rule ensureSignedCommits_sim)
qed

lemma protect_each_sim:
  assumes "distinct (map BranchName pbs)"
    and "sim RK (PK \<union> (\<lambda>b. (org, RepoName repo, BranchName b)) ` set pbs) wd wa"
    and "\<forall>b \<in> set pbs. (org, RepoName repo, BranchName b) \<notin> PK"
    and "\<forall>b \<in> set pbs. Repositories_GetBranchProtection (gh wd) (org, RepoName repo, BranchName b) \<noteq> HttpError 404"
  shows "fst (protect_each org repo pbs True wd) = fst (protect_each org repo pbs False wa)
     \<and> sim RK PK (snd (protect_each org repo pbs True wd)) (snd (protect_each org repo pbs False wa))"
  using assms
proof (induction pbs arbitrary: wd wa)
  case Nil
  then show ?case by simp
next
  case (Cons pb pbs)
  let ?k = "(org, RepoName repo, BranchName pb)"
  let ?rest = "(\<lambda>b. (org, RepoName repo, BranchName b)) ` set pbs"
  let ?c = "[Provider (Call_Repositories_GetBranchProtection org (RepoName repo) (BranchName pb))]"
  have same: "Repositories_GetBranchProtection (gh wd) ?k = Repositories_GetBranchProtection (gh wa) ?k"
    using Cons.prems(2) by (simp add: sim_def)
  have not404: "Repositories_GetBranchProtection (gh wd) ?k \<noteq> HttpError 404"
    using Cons.prems(4) by simp
  have knew: "?k \<notin> PK \<union> ?rest"
    using Cons.prems(1,3) by auto
  have s': "sim RK (PK \<union> ?rest) wd wa"
    using Cons.prems(2) by (rule sim_mono) auto
  have s1: "sim RK (PK \<union> ?rest) (logged ?c wd) (logged ?c wa)" using s' by (rule sim_logged)
  show ?case
  proof (cases "Repositories_GetBranchProtection (gh wd) ?k")
    case (Served p np)
    then have a: "Repositories_GetBranchProtection (gh wa) ?k = Served p np" using same by simp
    have gd: "clt_GetBranchProtection org (RepoName repo) (BranchName pb) wd = ((Some p, None), logged ?c wd)"
      using Served by (simp add: clt_GetBranchProtection_def GetBranchProtection_def)
    have ga: "clt_GetBranchProtection org (RepoName repo) (BranchName pb) wa = ((Some p, None), logged ?c wa)"
      using a by (simp add: clt_GetBranchProtection_def GetBranchProtection_def)
    have d1: "Repositories_GetBranchProtection (gh (logged ?c wd)) ?k = Served p np"
      using Served by (simp add: gh_logged)
    have a1: "Repositories_GetBranchProtection (gh (logged ?c wa)) ?k = Served p np"
      using a by (simp add: gh_logged)
    obtain ed wd2 where ud: "UpdateBranchProtection org repo pb True (logged ?c wd) = (ed, wd2)"
      by (cases "UpdateBranchProtection org repo pb True (logged ?c wd)")
    obtain ea wa2 where ua: "UpdateBranchProtection org repo pb False (logged ?c wa) = (ea, wa2)"
      by (cases "UpdateBranchProtection org repo pb False (logged ?c wa)")
    have eq: "ed = ea" and s2: "sim RK (PK \<union> ?rest) wd2 wa2"
      using UpdateBranchProtection_sim [OF s1 knew d1 a1] ud ua by simp_all
    have ghd: "gh wd2 = gh wd"
      using UpdateBranchProtection_dry_gh [of org repo pb "logged ?c wd"] ud by (simp add: gh_logged)
    have rd: "protect_each org repo (pb # pbs) True wd =
        (if ed \<noteq> None then (ed, wd2) else protect_each org repo pbs True wd2)"
      using gd ud by simp
    have ra: "protect_each org repo (pb # pbs) False wa =
        (if ea \<noteq> None then (ea, wa2) else protect_each org repo pbs False wa2)"
      using ga ua by simp
    show ?thesis
    proof (cases ed)
      case (Some err)
      have "sim RK PK wd2 wa2" using s2 by (rule sim_mono) auto
      then show ?thesis using Some eq rd ra by simp
    next
      case None
      have "fst (protect_each org repo pbs True wd2) = fst (protect_each org repo pbs False wa2)
         \<and> sim RK PK (snd (protect_each org repo pbs True wd2)) (snd (protect_each org repo pbs False wa2))"
        using Cons.prems(1,3,4) s2 by (intro Cons.IH) (simp_all add: ghd)
      then show ?thesis using None eq rd ra by simp
    qed
  next
    case (HttpError st)
    then have st: "st \<noteq> 404" using not404 by simp
    have a: "Repositories_GetBranchProtection (gh wa) ?k = HttpError st" using HttpError same by simp
    have "sim RK PK (logged ?c wd) (logged ?c wa)" using s1 by (rule sim_mono) auto
    then show ?thesis
      using HttpError a st by (simp add: clt_GetBranchProtection_def GetBranchProtection_def)
  next
    case (RateLimit x)
    have a: "Repositories_GetBranchProtection (gh wa) ?k = RateLimit x" using RateLimit same by simp
    have "sim RK PK (logged ?c wd) (logged ?c wa)" using s1 by (rule sim_mono) auto
    then show ?thesis
      using RateLimit a by (simp add: clt_GetBranchProtection_def GetBranchProtection_def)
  next
    case Transport
    have a: "Repositories_GetBranchProtection (gh wa) ?k = Transport" using Transport same by simp
    have "sim RK PK (logged ?c wd) (logged ?c wa)" using s1 by (rule sim_mono) auto
    then show ?thesis
      using Transport a by (simp add: clt_GetBranchProtection_def GetBranchProtection_def)
  qed
qed


lemma ensureTopics_dry_gh: "gh (snd (snd (ensureTopics org repo ghr True w))) = gh w"
  by (simp add: ensureTopics_def Let_def gh_emit split: option.splits)

lemma ensureTopics_frame:
  "RepoName (fst (snd (ensureTopics org repo ghr dry w))) = RepoName repo
   \<and> ProtectedBranches (fst (snd (ensureTopics org repo ghr dry w))) = ProtectedBranches repo"
  by (simp add: ensureTopics_def Let_def split: option.splits prod.splits)

lemma createRepo_dry_gh: "gh (snd (createRepo org repo True w)) = gh w"
  by (simp add: createRepo_def Let_def gh_emit)

lemma ensureTopics_sim:
  assumes s: "sim RK PK wd wa" and k: "(org, RepoName repo) \<notin> RK"
  shows "fst (ensureTopics org repo ghr True wd) = fst (ensureTopics org repo ghr False wa)
     \<and> fst (snd (ensureTopics org repo ghr True wd)) = fst (snd (ensureTopics org repo ghr False wa))
     \<and> sim RK PK (snd (snd (ensureTopics org repo ghr True wd))) (snd (snd (ensureTopics org repo ghr False wa)))"
proof (cases "Labels repo = []")
  case True
  then show ?thesis using s by (simp add: ensureTopics_def)
next
  case False
  note labels = False
  show ?thesis
  proof (cases ghr)
    case None
    then show ?thesis using s labels by (simp add: ensureTopics_def)
  next
    case (Some g)
    let ?l = "sort (Labels repo)"
    show ?thesis
    proof (cases "sort (gh_Topics g) = ?l")
      case True
      then show ?thesis using s labels Some by (simp add: ensureTopics_def Let_def sim_emit_same)
    next
      case False
      obtain e1 wa1 where st: "clt_SetRepoTopics org (RepoName repo) ?l wa = (e1, wa1)"
        by (cases "clt_SetRepoTopics org (RepoName repo) ?l wa")
      have e1: "e1 = None" and s1: "sim RK PK wd wa1"
        using SetRepoTopics_sim [OF s k, of ?l] st by simp_all
      have dr: "ensureTopics org repo ghr True wd =
          (None, repo\<lparr>Labels := ?l\<rparr>, emit [PrintAdd (''updating labels to ['' @ Join ?l '', '' @ '']''), Println] wd)"
        using labels Some False by (simp add: ensureTopics_def Let_def)
      have ar: "ensureTopics org repo ghr False wa =
          (None, repo\<lparr>Labels := ?l\<rparr>, emit [PrintAdd (''updated labels to ['' @ Join ?l '', '' @ '']''), Println] wa1)"
        using labels Some False st e1 by (simp add: ensureTopics_def Let_def)
      have "sim RK PK (emit [PrintAdd (''updating labels to ['' @ Join ?l '', '' @ '']''), Println] wd)
          (emit [PrintAdd (''updated labels to ['' @ Join ?l '', '' @ '']''), Println] wa1)"
        using s1 labels_lines by (rule sim_emit)
      then show ?thesis by (simp add: dr ar)
    qed
  qed
qed

lemma createRepo_sim:
  assumes s: "sim RK PK wd wa" and k: "(org, RepoName repo) \<notin> RK"
  shows "fst (createRepo org repo True wd) = None \<and> fst (createRepo org repo False wa) = None
     \<and> sim RK PK (snd (createRepo org repo True wd)) (snd (createRepo org repo False wa))"
proof -
  let ?st = "create_state repo"
  have n: "gh_Name ?st = Some (RepoName repo)" by (simp add: create_state_def)
  obtain e1 wa1 where c: "clt_CreateRepo org ?st wa = (e1, wa1)"
    by (cases "clt_CreateRepo org ?st wa")
  have e1: "e1 = None" and s1: "sim RK PK wd wa1"
    using CreateRepo_sim [OF s n k] c by simp_all
  have dr: "createRepo org repo True wd =
      (None, emit ([PrintWarn (''creating repo '' @ RepoName repo), Println] @ create_report ''setting'' ?st) wd)"
    by (simp add: createRepo_def Let_def)
  have ar: "createRepo org repo False wa =
      (None, emit ([PrintWarn (''created repo '' @ RepoName repo), Println] @ create_report ''set'' ?st) wa1)"
    using c e1 by (simp add: createRepo_def Let_def)
  have "sim RK PK
      (emit ([PrintWarn (''creating repo '' @ RepoName repo), Println] @ create_report ''setting'' ?st) wd)
      (emit ([PrintWarn (''created repo '' @ RepoName repo), Println] @ create_report ''set'' ?st) wa1)"
    using s1 by (rule sim_emit) (rule creating_lines, rule create_report_tense [OF in_tenses(2)])
  then show ?thesis by (simp add: dr ar)
qed

lemma GetRepo_same:
  "Repositories_Get c (org, name) = Repositories_Get c' (org, name) \<Longrightarrow> GetRepo c org name = GetRepo c' org name"
  by (simp add: GetRepo_def)

lemma ensureRepo_unfold:
  "ensureRepo cf org repo dry w =
     (let ((ghr, err), w1) = clt_GetRepo org (RepoName repo) w in
      if err \<noteq> None \<and> err \<noteq> Some ErrRepoNotFound then (err, repo, w1)
      else
        (let (err2, w2) = (if err = Some ErrRepoNotFound then createRepo org repo dry w1 else (None, w1)) in
         if err2 \<noteq> None then (err2, repo, w2)
         else ensureRepo_rest cf org repo ghr dry w2))"
  unfolding ensureRepo_def ensureRepo_rest_def by (rule refl)

lemma clt_GetRepo_eq:
  "clt_GetRepo org name w = (fst (GetRepo (gh w) org name), logged [Provider (Call_Repositories_Get org name)] w)"
  by (simp add: clt_GetRepo_def GetRepo_def Let_def)

lemma ensureRepo_rest_dry_gh: "gh (snd (snd (ensureRepo_rest cf org repo ghr True w))) = gh w"
proof -
  let ?w3 = "emit (edits_report ''updating'' (repo_edits cf repo ghr)) w"
  obtain e4 r4 w4 where t: "ensureTopics org repo ghr True ?w3 = (e4, r4, w4)"
    by (cases "ensureTopics org repo ghr True ?w3") auto
  have g4: "gh w4 = gh w" using ensureTopics_dry_gh [of org repo ghr ?w3] t by (simp add: gh_emit)
  show ?thesis
    using t g4 protect_each_dry_gh [of org r4 "ProtectedBranches r4" w4]
    by (auto simp: ensureRepo_rest_def Let_def ensureProtectedBranches_def split: prod.splits)
qed

lemma ensureRepo_dry_gh: "gh (snd (snd (ensureRepo cf org repo True w))) = gh w"
proof -
  let ?c = "[Provider (Call_Repositories_Get org (RepoName repo))]"
  obtain ghr err where gr: "fst (GetRepo (gh w) org (RepoName repo)) = (ghr, err)"
    by (cases "fst (GetRepo (gh w) org (RepoName repo))")
  have g: "clt_GetRepo org (RepoName repo) w = ((ghr, err), logged ?c w)"
    using gr by (simp add: clt_GetRepo_eq)
  let ?w2 = "emit ([PrintWarn (''creating repo '' @ RepoName repo), Println] @ create_report ''setting'' (create_state repo)) (logged ?c w)"
  have c: "createRepo org repo True (logged ?c w) = (None, ?w2)"
    by (simp add: createRepo_def Let_def)
  consider (fail) "err \<noteq> None" "err \<noteq> Some ErrRepoNotFound" | (absent) "err = Some ErrRepoNotFound" | (present) "err = None"
    by blast
  then show ?thesis
  proof cases
    case fail
    then show ?thesis using g by (simp add: ensureRepo_unfold gh_logged)
  next
    case absent
    have "ensureRepo cf org repo True w = ensureRepo_rest cf org repo ghr True ?w2"
      using absent g c by (simp add: ensureRepo_unfold)
    then show ?thesis by (simp add: ensureRepo_rest_dry_gh gh_emit gh_logged)
  next
    case present
    have "ensureRepo cf org repo True w = ensureRepo_rest cf org repo ghr True (logged ?c w)"
      using present g by (simp add: ensureRepo_unfold)
    then show ?thesis by (simp add: ensureRepo_rest_dry_gh gh_logged)
  qed
qed

lemma ensureRepo_rest_sim:
  assumes s: "sim RK (PK \<union> (\<lambda>b. (org, RepoName repo, BranchName b)) ` set (ProtectedBranches repo)) wd wa"
    and k: "(org, RepoName repo) \<notin> RK"
    and kb: "\<forall>b \<in> set (ProtectedBranches repo). (org, RepoName repo, BranchName b) \<notin> PK"
    and dist: "distinct (map BranchName (ProtectedBranches repo))"
    and h2: "\<forall>b \<in> set (ProtectedBranches repo).
               Repositories_GetBranchProtection (gh wd) (org, RepoName repo, BranchName b) \<noteq> HttpError 404"
  shows "fst (ensureRepo_rest cf org repo ghr True wd) = fst (ensureRepo_rest cf org repo ghr False wa)
     \<and> fst (snd (ensureRepo_rest cf org repo ghr True wd)) = fst (snd (ensureRepo_rest cf org repo ghr False wa))
     \<and> sim RK PK (snd (snd (ensureRepo_rest cf org repo ghr True wd))) (snd (snd (ensureRepo_rest cf org repo ghr False wa)))"
proof -
  let ?PK1 = "PK \<union> (\<lambda>b. (org, RepoName repo, BranchName b)) ` set (ProtectedBranches repo)"
  let ?edits = "repo_edits cf repo ghr"
  let ?wd3 = "emit (edits_report ''updating'' ?edits) wd"
  obtain e3 wa3' where u: "clt_UpdateRepo org (RepoName repo) ?edits wa = (e3, wa3')"
    by (cases "clt_UpdateRepo org (RepoName repo) ?edits wa")
  have e3: "e3 = None" and s3': "sim RK ?PK1 wd wa3'"
    using UpdateRepo_sim [OF s k, of ?edits] u by simp_all
  let ?wa3 = "emit (edits_report ''updated'' ?edits) wa3'"
  have s3: "sim RK ?PK1 ?wd3 ?wa3"
    using s3' by (rule sim_emit) (rule edits_report_tense [OF in_tenses(1)])
  obtain e4 r4 wd4 where td: "ensureTopics org repo ghr True ?wd3 = (e4, r4, wd4)"
    by (cases "ensureTopics org repo ghr True ?wd3") auto
  obtain e4' r4' wa4 where ta: "ensureTopics org repo ghr False ?wa3 = (e4', r4', wa4)"
    by (cases "ensureTopics org repo ghr False ?wa3") auto
  have e4: "e4' = e4" and r4: "r4' = r4" and s4: "sim RK ?PK1 wd4 wa4"
    using ensureTopics_sim [OF s3 k, of ghr] td ta by simp_all
  have fr: "RepoName r4 = RepoName repo" "ProtectedBranches r4 = ProtectedBranches repo"
    using ensureTopics_frame [of org repo ghr True ?wd3] td by simp_all
  have g4: "gh wd4 = gh wd"
    using ensureTopics_dry_gh [of org repo ghr ?wd3] td by (simp add: gh_emit)
  have rd: "ensureRepo_rest cf org repo ghr True wd =
      (if e4 \<noteq> None then (e4, r4, wd4)
       else (fst (protect_each org r4 (ProtectedBranches repo) True wd4), r4,
             snd (protect_each org r4 (ProtectedBranches repo) True wd4)))"
    using td fr by (simp add: ensureRepo_rest_def Let_def ensureProtectedBranches_def split: prod.splits)
  have ra: "ensureRepo_rest cf org repo ghr False wa =
      (if e4 \<noteq> None then (e4, r4, wa4)
       else (fst (protect_each org r4 (ProtectedBranches repo) False wa4), r4,
             snd (protect_each org r4 (ProtectedBranches repo) False wa4)))"
    using u e3 ta e4 r4 fr by (simp add: ensureRepo_rest_def Let_def ensureProtectedBranches_def split: prod.splits)
  show ?thesis
  proof (cases e4)
    case (Some err)
    have "sim RK PK wd4 wa4" using s4 by (rule sim_mono) auto
    then show ?thesis using Some rd ra by simp
  next
    case None
    have s4': "sim RK (PK \<union> (\<lambda>b. (org, RepoName r4, BranchName b)) ` set (ProtectedBranches repo)) wd4 wa4"
      using s4 fr by simp
    have kb': "\<forall>b \<in> set (ProtectedBranches repo). (org, RepoName r4, BranchName b) \<notin> PK"
      using kb fr by simp
    have h2': "\<forall>b \<in> set (ProtectedBranches repo).
               Repositories_GetBranchProtection (gh wd4) (org, RepoName r4, BranchName b) \<noteq> HttpError 404"
      using h2 fr g4 by simp
    have "fst (protect_each org r4 (ProtectedBranches repo) True wd4) = fst (protect_each org r4 (ProtectedBranches repo) False wa4)
       \<and> sim RK PK (snd (protect_each org r4 (ProtectedBranches repo) True wd4))
            (snd (protect_each org r4 (ProtectedBranches repo) False wa4))"
      using dist s4' kb' h2' by (rule protect_each_sim)
    then show ?thesis using None rd ra by simp
  qed
qed

lemma ensureRepo_sim:
  assumes s: "sim (insert (org, RepoName repo) RK)
                 (PK \<union> (\<lambda>b. (org, RepoName repo, BranchName b)) ` set (ProtectedBranches repo)) wd wa"
    and k: "(org, RepoName repo) \<notin> RK"
    and kb: "\<forall>b \<in> set (ProtectedBranches repo). (org, RepoName repo, BranchName b) \<notin> PK"
    and dist: "distinct (map BranchName (ProtectedBranches repo))"
    and h2: "\<forall>b \<in> set (ProtectedBranches repo).
               Repositories_GetBranchProtection (gh wd) (org, RepoName repo, BranchName b) \<noteq> HttpError 404"
  shows "fst (ensureRepo cf org repo True wd) = fst (ensureRepo cf org repo False wa)
     \<and> fst (snd (ensureRepo cf org repo True wd)) = fst (snd (ensureRepo cf org repo False wa))
     \<and> sim RK PK (snd (snd (ensureRepo cf org repo True wd))) (snd (snd (ensureRepo cf org repo False wa)))"
proof -
  let ?PK1 = "PK \<union> (\<lambda>b. (org, RepoName repo, BranchName b)) ` set (ProtectedBranches repo)"
  let ?c = "[Provider (Call_Repositories_Get org (RepoName repo))]"
  have "Repositories_Get (gh wd) (org, RepoName repo) = Repositories_Get (gh wa) (org, RepoName repo)"
    using s by (simp add: sim_def)
  then have same: "GetRepo (gh wa) org (RepoName repo) = GetRepo (gh wd) org (RepoName repo)"
    by (intro GetRepo_same) simp
  obtain ghr err where gr: "fst (GetRepo (gh wd) org (RepoName repo)) = (ghr, err)"
    by (cases "fst (GetRepo (gh wd) org (RepoName repo))")
  have gd: "clt_GetRepo org (RepoName repo) wd = ((ghr, err), logged ?c wd)"
    using gr by (simp add: clt_GetRepo_eq)
  have ga: "clt_GetRepo org (RepoName repo) wa = ((ghr, err), logged ?c wa)"
    using gr same by (simp add: clt_GetRepo_eq)
  have s0: "sim RK ?PK1 wd wa" using s by (rule sim_mono) auto
  have s1: "sim RK ?PK1 (logged ?c wd) (logged ?c wa)" using s0 by (rule sim_logged)
  have h1: "\<forall>b \<in> set (ProtectedBranches repo).
               Repositories_GetBranchProtection (gh (logged ?c wd)) (org, RepoName repo, BranchName b) \<noteq> HttpError 404"
    using h2 by (simp add: gh_logged)
  consider (fail) "err \<noteq> None" "err \<noteq> Some ErrRepoNotFound" | (absent) "err = Some ErrRepoNotFound" | (present) "err = None"
    by blast
  then show ?thesis
  proof cases
    case fail
    have "sim RK PK (logged ?c wd) (logged ?c wa)" using s1 by (rule sim_mono) auto
    then show ?thesis using fail gd ga by (simp add: ensureRepo_unfold)
  next
    case absent
    obtain cd wd2 where crd: "createRepo org repo True (logged ?c wd) = (cd, wd2)"
      by (cases "createRepo org repo True (logged ?c wd)")
    obtain ca wa2 where cra: "createRepo org repo False (logged ?c wa) = (ca, wa2)"
      by (cases "createRepo org repo False (logged ?c wa)")
    have cd: "cd = None" and ca: "ca = None" and s2: "sim RK ?PK1 wd2 wa2"
      using createRepo_sim [OF s1 k] crd cra by simp_all
    have g2: "gh wd2 = gh wd"
      using createRepo_dry_gh [of org repo "logged ?c wd"] crd by (simp add: gh_logged)
    have h2': "\<forall>b \<in> set (ProtectedBranches repo).
               Repositories_GetBranchProtection (gh wd2) (org, RepoName repo, BranchName b) \<noteq> HttpError 404"
      using h2 g2 by simp
    have rd: "ensureRepo cf org repo True wd = ensureRepo_rest cf org repo ghr True wd2"
      using absent gd crd cd by (simp add: ensureRepo_unfold)
    have ra: "ensureRepo cf org repo False wa = ensureRepo_rest cf org repo ghr False wa2"
      using absent ga cra ca by (simp add: ensureRepo_unfold)
    show ?thesis
      unfolding rd ra using s2 k kb dist h2' by (rule ensureRepo_rest_sim)
  next
    case present
    have rd: "ensureRepo cf org repo True wd = ensureRepo_rest cf org repo ghr True (logged ?c wd)"
      using present gd by (simp add: ensureRepo_unfold)
    have ra: "ensureRepo cf org repo False wa = ensureRepo_rest cf org repo ghr False (logged ?c wa)"
      using present ga by (simp add: ensureRepo_unfold)
    show ?thesis
      unfolding rd ra using s1 k kb dist h1 by (rule ensureRepo_rest_sim)
  qed
qed


lemma ensure_each_sim:
  assumes "distinct (map RepoName rs)"
    and "sim ((\<lambda>r. (org, RepoName r)) ` set rs) ({org} \<times> (RepoName ` set rs \<times> UNIV)) wd wa"
    and "\<forall>r \<in> set rs. distinct (map BranchName (ProtectedBranches r))"
    and "\<forall>r \<in> set rs. \<forall>b \<in> set (ProtectedBranches r).
           Repositories_GetBranchProtection (gh wd) (org, RepoName r, BranchName b) \<noteq> HttpError 404"
  shows "fst (ensure_each cf org rs True wd) = fst (ensure_each cf org rs False wa)
     \<and> fst (snd (ensure_each cf org rs True wd)) = fst (snd (ensure_each cf org rs False wa))
     \<and> sim {} {} (snd (snd (ensure_each cf org rs True wd))) (snd (snd (ensure_each cf org rs False wa)))"
  using assms
proof (induction rs arbitrary: wd wa)
  case Nil
  then show ?case by (simp add: sim_def)
next
  case (Cons r rs)
  let ?RK = "(\<lambda>r. (org, RepoName r)) ` set rs"
  let ?PK = "{org} \<times> (RepoName ` set rs \<times> (UNIV :: string set))"
  let ?hdr = "[Println, PrintHeader (RepoName r), Println]"
  have fresh: "RepoName r \<notin> RepoName ` set rs" using Cons.prems(1) by simp
  have s0: "sim (insert (org, RepoName r) ?RK)
              (?PK \<union> (\<lambda>b. (org, RepoName r, BranchName b)) ` set (ProtectedBranches r))
              (emit ?hdr wd) (emit ?hdr wa)"
    by (rule sim_emit_same, rule sim_mono [OF Cons.prems(2)]) auto
  have k: "(org, RepoName r) \<notin> ?RK" using fresh by auto
  have kb: "\<forall>b \<in> set (ProtectedBranches r). (org, RepoName r, BranchName b) \<notin> ?PK" using fresh by auto
  have dist: "distinct (map BranchName (ProtectedBranches r))" using Cons.prems(3) by simp
  have h2: "\<forall>b \<in> set (ProtectedBranches r).
       Repositories_GetBranchProtection (gh (emit ?hdr wd)) (org, RepoName r, BranchName b) \<noteq> HttpError 404"
    using Cons.prems(4) by (simp add: gh_emit)
  obtain ed rd wd1 where ud: "ensureRepo cf org r True (emit ?hdr wd) = (ed, rd, wd1)"
    by (cases "ensureRepo cf org r True (emit ?hdr wd)") auto
  obtain ea ra wa1 where ua: "ensureRepo cf org r False (emit ?hdr wa) = (ea, ra, wa1)"
    by (cases "ensureRepo cf org r False (emit ?hdr wa)") auto
  have eq: "ea = ed" "ra = rd" and s1: "sim ?RK ?PK wd1 wa1"
    using ensureRepo_sim [OF s0 k kb dist h2, of cf] ud ua by simp_all
  have g1: "gh wd1 = gh wd"
    using ensureRepo_dry_gh [of cf org r "emit ?hdr wd"] ud by (simp add: gh_emit)
  have resd: "ensure_each cf org (r # rs) True wd =
      (if ed \<noteq> None then (ed, rd # rs, wd1)
       else (fst (ensure_each cf org rs True wd1), rd # fst (snd (ensure_each cf org rs True wd1)),
             snd (snd (ensure_each cf org rs True wd1))))"
    using ud by (simp split: prod.splits)
  have resa: "ensure_each cf org (r # rs) False wa =
      (if ed \<noteq> None then (ed, rd # rs, wa1)
       else (fst (ensure_each cf org rs False wa1), rd # fst (snd (ensure_each cf org rs False wa1)),
             snd (snd (ensure_each cf org rs False wa1))))"
    using ua eq by (simp split: prod.splits)
  show ?case
  proof (cases ed)
    case (Some err)
    have "sim {} {} wd1 wa1" using s1 by (rule sim_mono) auto
    then show ?thesis using Some resd resa by simp
  next
    case None
    have "fst (ensure_each cf org rs True wd1) = fst (ensure_each cf org rs False wa1)
       \<and> fst (snd (ensure_each cf org rs True wd1)) = fst (snd (ensure_each cf org rs False wa1))
       \<and> sim {} {} (snd (snd (ensure_each cf org rs True wd1))) (snd (snd (ensure_each cf org rs False wa1)))"
      using Cons.prems(1,3,4) s1 by (intro Cons.IH) (simp_all add: g1)
    then show ?thesis using None resd resa by simp
  qed
qed

text \<open>
  Where no protection has to be created the two modes agree. When the provider accepts
  every write, the manifest's repository names are distinct, the branch names within each
  repository are distinct, and no manifest branch lacks its protection (no lookup answers
  not-found), the repository run ends with the same error or success in both modes, leaves
  the same manifest, and reports the same sequence of lines, each with the same marker
  and the same message but for tense.
\<close>

lemma parity_where_protected:
  assumes "\<forall>c. write_error w c = None"
    and "distinct (map RepoName (Repositories org))"
    and "\<forall>r \<in> set (Repositories org). distinct (map BranchName (ProtectedBranches r))"
    and "\<forall>r \<in> set (Repositories org). \<forall>b \<in> set (ProtectedBranches r).
           Repositories_GetBranchProtection (gh w) (OrgName org, RepoName r, BranchName b) \<noteq> HttpError 404"
  shows "fst (reposRun cf org True w) = fst (reposRun cf org False w)
     \<and> fst (snd (reposRun cf org True w)) = fst (snd (reposRun cf org False w))
     \<and> list_all2 same_but_tense (printed (snd (snd (reposRun cf org True w)))) (printed (snd (snd (reposRun cf org False w))))"
proof -
  let ?w0 = "emit [Println, PrintHeader ''Repos'', Println] w"
  have "write_error w = (\<lambda>_. None)" using assms(1) by (simp add: fun_eq_iff)
  then have "sim UNIV UNIV w w" by (simp add: sim_def same_lines_refl)
  then have "sim UNIV UNIV ?w0 ?w0" by (rule sim_emit_same)
  then have s: "sim ((\<lambda>r. (OrgName org, RepoName r)) ` set (Repositories org))
                 ({OrgName org} \<times> (RepoName ` set (Repositories org) \<times> UNIV)) ?w0 ?w0"
    by (rule sim_mono) auto
  have h2: "\<forall>r \<in> set (Repositories org). \<forall>b \<in> set (ProtectedBranches r).
           Repositories_GetBranchProtection (gh ?w0) (OrgName org, RepoName r, BranchName b) \<noteq> HttpError 404"
    using assms(4) by (simp add: gh_emit)
  have "fst (ensure_each cf (OrgName org) (Repositories org) True ?w0) = fst (ensure_each cf (OrgName org) (Repositories org) False ?w0)
     \<and> fst (snd (ensure_each cf (OrgName org) (Repositories org) True ?w0)) = fst (snd (ensure_each cf (OrgName org) (Repositories org) False ?w0))
     \<and> sim {} {} (snd (snd (ensure_each cf (OrgName org) (Repositories org) True ?w0)))
          (snd (snd (ensure_each cf (OrgName org) (Repositories org) False ?w0)))"
    using assms(2) s assms(3) h2 by (rule ensure_each_sim)
  then show ?thesis
    by (auto simp: reposRun_def Let_def sim_def split: prod.splits)
qed

lemmas run_defs =
  reposRun_def ensureRepo_def clt_GetRepo_def GetRepo_def repo_edits_def no_edits_def clt_UpdateRepo_def
  patch_repo_def set_repo_def edits_report_def ensureTopics_def clt_SetRepoTopics_def ensureProtectedBranches_def
  clt_GetBranchProtection_def GetBranchProtection_def UpdateBranchProtection_def createProtectedBranch_def
  protection_state_def protection_report_def clt_ProtectBranch_def set_protection_def ensureSignedCommits_def
  clt_RequireSignedCommits_def fmt_bool_def emit_def logged_def Let_def
  closed_gh_def world_of_def plain_repo_def plain_gh_repo_def main_branch_def
  GetDescription_def GetArchived_def GetPrivate_def GetDefaultBranch_def GetEnabled_def EqualFold_def ascii_fold_def to_lower_def

text \<open>
  C2 (dry-run/apply parity) at a failing input: the repository exists, the manifest
  protects its branch \<open>main\<close> with a review requirement and signed commits, and the
  provider has no protection for the branch. The dry run reports the creation with
  \<open>PrintAdd\<close> and then calls \<open>ensureSignedCommits\<close>, which reads the protection it has
  not created: the run ends with the not-found error. The apply run reports the creation
  with \<open>PrintWarn\<close>, as \<open>createRepo\<close> does in both modes, creates the protection, and
  goes on to patch the signed-commit requirement. The two reports differ in a marker and
  in length, and the two runs in their outcome.
\<close>

theorem dry_run_fails_where_apply_creates:
  "fst (reposRun ascii_fold org_c2 True (world_of gh_c2)) = Some ErrBranchProtectionNotFound
   \<and> fst (reposRun ascii_fold org_c2 False (world_of gh_c2)) = None
   \<and> printed (snd (snd (reposRun ascii_fold org_c2 True (world_of gh_c2)))) =
       [Println, PrintHeader ''Repos'', Println, Println, PrintHeader ''r'', Println,
        PrintAdd ''create protected branch main for repo r'', Println,
        PrintAdd (''setting require pr to '' @ [CHR 0x27] @ ''true'' @ [CHR 0x27]), Println]
   \<and> printed (snd (snd (reposRun ascii_fold org_c2 False (world_of gh_c2)))) =
       [Println, PrintHeader ''Repos'', Println, Println, PrintHeader ''r'', Println,
        PrintWarn ''created protected branch main for repo r'', Println,
        PrintAdd (''set require pr to '' @ [CHR 0x27] @ ''true'' @ [CHR 0x27]), Println,
        PrintAdd (''updated require signed commits to '' @ [CHR 0x27] @ ''true'' @ [CHR 0x27]), Println]
   \<and> \<not> list_all2 same_but_tense (printed (snd (snd (reposRun ascii_fold org_c2 True (world_of gh_c2)))))
         (printed (snd (snd (reposRun ascii_fold org_c2 False (world_of gh_c2)))))"
  by (simp add: org_c2_def gh_c2_def run_defs)

end
